theory Spec2Isabelle
  imports Main "HOL-Library.Word"
begin

section \<open>promptui: the single-line prompt (prompt.go)\<close>

text \<open>
  A shallow embedding of \<^verbatim>\<open>(*Prompt).Run\<close> and \<^verbatim>\<open>(*Prompt).prepareTemplates\<close>.
  Everything \<^verbatim>\<open>prompt.go\<close> calls but does not define (the text/template package,
  the readline engine, the package's own cursor, renderer, icons, stylers and sentinel
  errors, \<^verbatim>\<open>strings.ToLower\<close>) is a field of the record \<open>env\<close>, so every theorem
  holds for whatever these collaborators compute.
\<close>

subsection \<open>Data\<close>

text \<open>Go's \<^verbatim>\<open>rune\<close> is \<^verbatim>\<open>int32\<close>; only equality with constants is used on it.\<close>

type_synonym rune = "32 word"

text \<open>
  Go \<^verbatim>\<open>error\<close> values, compared by identity in \<^verbatim>\<open>Run\<close>: the three sentinels of
  the package, the two errors of the engine that \<^verbatim>\<open>Run\<close> recognises, and any
  other error (tagged by a string).
\<close>

datatype error =
    ErrInterrupt
  | ErrEOF
  | ErrAbort
  | readline_ErrInterrupt
  | io_EOF
  | OtherError string

text \<open>The argument of \<^verbatim>\<open>render\<close> is an \<^verbatim>\<open>interface{}\<close>: the label or a validator's error.\<close>

datatype 'l data = OfLabel 'l | OfError error

text \<open>
  \<^verbatim>\<open>PromptTemplates\<close>: the seven template sources, the function map (\<open>None\<close> is the nil
  map) and the six compiled templates (\<open>None\<close> is the nil pointer).
\<close>

record ('f, 't) PromptTemplates =
  Prompt :: string
  Confirm :: string
  Valid :: string
  Invalid :: string
  Success :: string
  Unvalidated :: string
  ValidationError :: string
  FuncMap :: "'f option"
  prompt :: "'t option"
  valid :: "'t option"
  invalid :: "'t option"
  validation :: "'t option"
  success :: "'t option"
  unvalidated :: "'t option"

text \<open>
  \<^verbatim>\<open>Prompt\<close>. \<open>Templates\<close> is a pointer in the source: \<open>None\<close> is nil and
  \<open>Some t\<close> is a pointer to a struct whose present contents are \<open>t\<close>. \<open>Validate\<close> is a
  function value that may be nil; a validator returns \<open>None\<close> for a nil error.
\<close>

record ('l, 'ptr, 'f, 't, 'io) Prompt =
  Label :: 'l
  Default :: string
  AllowEdit :: bool
  Validate :: "(string \<Rightarrow> error option) option"
  Mask :: rune
  LazyValidation :: bool
  Templates :: "('f, 't) PromptTemplates option"
  IsConfirm :: bool
  IsVimMode :: bool
  Pointer :: 'ptr
  Stdin :: 'io
  Stdout :: 'io

text \<open>\<^verbatim>\<open>readline.Config\<close> as \<^verbatim>\<open>Run\<close> fills it before the engine is built.\<close>

record 'io Config =
  cfg_Stdin :: 'io
  cfg_Stdout :: 'io
  EnableMask :: bool
  MaskRune :: rune
  HistoryLimit :: int
  VimMode :: bool

text \<open>
  What a run does to the outside, in order: template compilations, calls of the
  validator, and the calls on the engine.
\<close>

datatype 'io event =
    EvParse string
  | EvNewFromConfig "'io Config"
  | EvWrite string
  | EvSetPrompt string
  | EvRefresh
  | EvClose
  | EvValidate string

text \<open>
  The collaborators of \<^verbatim>\<open>prompt.go\<close>.
  \<^item> \<open>template_Parse fm src\<close> is \<^verbatim>\<open>template.New("").Funcs(fm).Parse(src)\<close>.
  \<^item> \<open>render\<close>, \<open>pkg_FuncMap\<close> (the package variable \<^verbatim>\<open>FuncMap\<close>), the icons,
    \<open>Styler_FGBold\<close> (\<^verbatim>\<open>Styler(FGBold)\<close>), \<open>Styler_FGFaint\<close>, \<open>hideCursor\<close>,
    \<open>showCursor\<close> and the cursor (\<open>NewCursor\<close>, \<open>Listen\<close>, \<open>Get\<close>, \<open>GetMask\<close>,
    \<open>Format\<close>, \<open>FormatMask\<close>) belong to the package but to other files. \<open>Listen\<close>
    changes the cursor, so it returns the new one beside its three results; the four
    readers leave it as it is.
  \<^item> \<open>ToLower\<close> is \<^verbatim>\<open>strings.ToLower\<close>, \<open>Error\<close> the \<^verbatim>\<open>Error()\<close> method of an
    error value, \<open>CharEnter\<close> and \<open>CharCtrlJ\<close> the key codes of the engine.
\<close>

record ('l, 'ptr, 'f, 't, 'c) env =
  template_Parse :: "'f option \<Rightarrow> string \<Rightarrow> error + 't"
  render :: "'t option \<Rightarrow> 'l data \<Rightarrow> string"
  pkg_FuncMap :: 'f
  IconInitial :: string
  IconGood :: string
  IconBad :: string
  Styler_FGBold :: "string \<Rightarrow> string"
  Styler_FGFaint :: "string \<Rightarrow> string"
  hideCursor :: string
  showCursor :: string
  NewCursor :: "string \<Rightarrow> 'ptr \<Rightarrow> bool \<Rightarrow> 'c"
  Listen :: "'c \<Rightarrow> rune list option \<Rightarrow> int \<Rightarrow> rune \<Rightarrow> 'c \<times> rune list option \<times> int \<times> bool"
  Get :: "'c \<Rightarrow> string"
  GetMask :: "'c \<Rightarrow> rune \<Rightarrow> string"
  Format :: "'c \<Rightarrow> string"
  FormatMask :: "'c \<Rightarrow> rune \<Rightarrow> string"
  ToLower :: "string \<Rightarrow> string"
  Error :: "error \<Rightarrow> string"
  CharEnter :: rune
  CharCtrlJ :: rune

text \<open>
  The engine's side of a run: whether \<^verbatim>\<open>readline.NewFromConfig\<close> fails, the calls it
  makes on the two hooks while \<^verbatim>\<open>ReadLine\<close> blocks (any sequence: the theorems
  quantify over it), and the error \<^verbatim>\<open>ReadLine\<close> returns.
\<close>

datatype hook_call =
    FuncFilterInputRune rune
  | Listener "rune list option" int rune

record engine =
  NewFromConfig_err :: "error option"
  hook_calls :: "hook_call list"
  ReadLine_err :: "error option"

text \<open>
  The variables of \<^verbatim>\<open>Run\<close> that its two closures share: the cursor, the variable
  \<^verbatim>\<open>err\<close> (the key filter assigns it), and the events so far.
\<close>

record ('c, 'io) vars =
  cur :: 'c
  err :: "error option"
  trace :: "'io event list"

text \<open>What \<^verbatim>\<open>Run\<close> gives back: its two results, or a nil-pointer panic.\<close>

datatype outcome = Returned string "error option" | NilDereference

subsection \<open>prepareTemplates\<close>

text \<open>The zero value \<^verbatim>\<open>&PromptTemplates{}\<close>.\<close>

definition new_PromptTemplates :: "('f, 't) PromptTemplates" where
  "new_PromptTemplates =
     \<lparr>Prompt = [], Confirm = [], Valid = [], Invalid = [], Success = [], Unvalidated = [],
      ValidationError = [], FuncMap = None, prompt = None, valid = None, invalid = None,
      validation = None, success = None, unvalidated = None\<rparr>"

text \<open>
  \<^verbatim>\<open>tpls\<close> is \<^verbatim>\<open>p.Templates\<close> itself unless that was nil, so what the function
  has written to \<^verbatim>\<open>*tpls\<close> when it returns early is seen through \<^verbatim>\<open>p.Templates\<close>
  exactly when that was not nil.
\<close>

definition early_return ::
  "('l, 'ptr, 'f, 't, 'io) Prompt \<Rightarrow> ('f, 't) PromptTemplates \<Rightarrow> ('l, 'ptr, 'f, 't, 'io) Prompt" where
  "early_return p tpls = (case Templates p of None \<Rightarrow> p | Some _ \<Rightarrow> p\<lparr>Templates := Some tpls\<rparr>)"

text \<open>
  The function is six blocks of one shape: put the built-in source where the
  configured one is empty, parse it, return the error if there is one, store the
  compiled template. Each block below gives the error (if any), \<^verbatim>\<open>*tpls\<close> as the
  block leaves it, and the source it handed to \<^verbatim>\<open>Parse\<close>. In the built-in
  sources \<^verbatim>\<open>fmt.Sprintf\<close> with \<^verbatim>\<open>%s\<close> verbs is concatenation and \<^verbatim>\<open>bold\<close> is
  \<^verbatim>\<open>Styler(FGBold)\<close>.
\<close>

type_synonym ('f, 't, 'io) compiled = "error option \<times> ('f, 't) PromptTemplates \<times> 'io event list"

text \<open>The built-in sources, in the order of the blocks.\<close>

definition builtin_Confirm ::
  "('l, 'ptr, 'f, 't, 'c) env \<Rightarrow> ('l, 'ptr, 'f, 't, 'io) Prompt \<Rightarrow> string" where
  \<open>builtin_Confirm env p =
    (let confirm = (if ToLower env (Default p) = ''y'' then ''Y/n'' else ''y/N'')
     in ''{{ "'' @ IconInitial env @ ''" | bold }} {{ . | bold }}? {{ "['' @ confirm @ '']" | faint }} '')\<close>

definition builtin_Prompt :: "('l, 'ptr, 'f, 't, 'c) env \<Rightarrow> string" where
  "builtin_Prompt env =
     Styler_FGBold env (IconInitial env) @ '' {{ . | bold }}'' @ Styler_FGBold env '':'' @ '' ''"

definition builtin_Valid :: "('l, 'ptr, 'f, 't, 'c) env \<Rightarrow> string" where
  "builtin_Valid env =
     Styler_FGBold env (IconGood env) @ '' {{ . | bold }}'' @ Styler_FGBold env '':'' @ '' ''"

definition builtin_Unvalidated :: "('l, 'ptr, 'f, 't, 'c) env \<Rightarrow> string" where
  "builtin_Unvalidated env =
     Styler_FGBold env (IconInitial env) @ '' {{ . | bold }}'' @ Styler_FGBold env '':'' @ '' ''"

definition builtin_Invalid :: "('l, 'ptr, 'f, 't, 'c) env \<Rightarrow> string" where
  "builtin_Invalid env =
     Styler_FGBold env (IconBad env) @ '' {{ . | bold }}'' @ Styler_FGBold env '':'' @ '' ''"

definition builtin_ValidationError :: string where
  \<open>builtin_ValidationError =
     ''{{ ">>" | red }} {{ . | red }} {{ "Press any key to get back to the prompt" | faint }}''\<close>

definition builtin_Success :: "('l, 'ptr, 'f, 't, 'c) env \<Rightarrow> string" where
  "builtin_Success env = ''{{ . | faint }}'' @ Styler_FGFaint env '':'' @ '' ''"

text \<open>Lines 259-285.\<close>

definition compile_prompt ::
  "('l, 'ptr, 'f, 't, 'c) env \<Rightarrow> ('l, 'ptr, 'f, 't, 'io) Prompt \<Rightarrow> ('f, 't) PromptTemplates \<Rightarrow>
   ('f, 't, 'io) compiled" where
  "compile_prompt env p tpls =
    (if IsConfirm p then
       (let tpls = (if Confirm tpls = [] then tpls\<lparr>Confirm := builtin_Confirm env p\<rparr> else tpls)
        in case template_Parse env (FuncMap tpls) (Confirm tpls) of
             Inl e \<Rightarrow> (Some e, tpls, [EvParse (Confirm tpls)])
           | Inr tpl \<Rightarrow> (None, tpls\<lparr>prompt := Some tpl\<rparr>, [EvParse (Confirm tpls)]))
     else
       (let tpls = (if Prompt tpls = [] then tpls\<lparr>Prompt := builtin_Prompt env\<rparr> else tpls)
        in case template_Parse env (FuncMap tpls) (Prompt tpls) of
             Inl e \<Rightarrow> (Some e, tpls, [EvParse (Prompt tpls)])
           | Inr tpl \<Rightarrow> (None, tpls\<lparr>prompt := Some tpl\<rparr>, [EvParse (Prompt tpls)])))"

text \<open>Lines 287-296.\<close>

definition compile_valid ::
  "('l, 'ptr, 'f, 't, 'c) env \<Rightarrow> ('f, 't) PromptTemplates \<Rightarrow> ('f, 't, 'io) compiled" where
  "compile_valid env tpls =
    (let tpls = (if Valid tpls = [] then tpls\<lparr>Valid := builtin_Valid env\<rparr> else tpls)
     in case template_Parse env (FuncMap tpls) (Valid tpls) of
          Inl e \<Rightarrow> (Some e, tpls, [EvParse (Valid tpls)])
        | Inr tpl \<Rightarrow> (None, tpls\<lparr>valid := Some tpl\<rparr>, [EvParse (Valid tpls)]))"

text \<open>Lines 298-307.\<close>

definition compile_unvalidated ::
  "('l, 'ptr, 'f, 't, 'c) env \<Rightarrow> ('f, 't) PromptTemplates \<Rightarrow> ('f, 't, 'io) compiled" where
  "compile_unvalidated env tpls =
    (let tpls = (if Unvalidated tpls = [] then tpls\<lparr>Unvalidated := builtin_Unvalidated env\<rparr>
                 else tpls)
     in case template_Parse env (FuncMap tpls) (Unvalidated tpls) of
          Inl e \<Rightarrow> (Some e, tpls, [EvParse (Unvalidated tpls)])
        | Inr tpl \<Rightarrow> (None, tpls\<lparr>unvalidated := Some tpl\<rparr>, [EvParse (Unvalidated tpls)]))"

text \<open>Lines 309-318.\<close>

definition compile_invalid ::
  "('l, 'ptr, 'f, 't, 'c) env \<Rightarrow> ('f, 't) PromptTemplates \<Rightarrow> ('f, 't, 'io) compiled" where
  "compile_invalid env tpls =
    (let tpls = (if Invalid tpls = [] then tpls\<lparr>Invalid := builtin_Invalid env\<rparr> else tpls)
     in case template_Parse env (FuncMap tpls) (Invalid tpls) of
          Inl e \<Rightarrow> (Some e, tpls, [EvParse (Invalid tpls)])
        | Inr tpl \<Rightarrow> (None, tpls\<lparr>invalid := Some tpl\<rparr>, [EvParse (Invalid tpls)]))"

text \<open>Lines 320-329.\<close>

definition compile_validation ::
  "('l, 'ptr, 'f, 't, 'c) env \<Rightarrow> ('f, 't) PromptTemplates \<Rightarrow> ('f, 't, 'io) compiled" where
  "compile_validation env tpls =
    (let tpls = (if ValidationError tpls = [] then tpls\<lparr>ValidationError := builtin_ValidationError\<rparr>
                 else tpls)
     in case template_Parse env (FuncMap tpls) (ValidationError tpls) of
          Inl e \<Rightarrow> (Some e, tpls, [EvParse (ValidationError tpls)])
        | Inr tpl \<Rightarrow> (None, tpls\<lparr>validation := Some tpl\<rparr>, [EvParse (ValidationError tpls)]))"

text \<open>Lines 331-340.\<close>

definition compile_success ::
  "('l, 'ptr, 'f, 't, 'c) env \<Rightarrow> ('f, 't) PromptTemplates \<Rightarrow> ('f, 't, 'io) compiled" where
  "compile_success env tpls =
    (let tpls = (if Success tpls = [] then tpls\<lparr>Success := builtin_Success env\<rparr> else tpls)
     in case template_Parse env (FuncMap tpls) (Success tpls) of
          Inl e \<Rightarrow> (Some e, tpls, [EvParse (Success tpls)])
        | Inr tpl \<Rightarrow> (None, tpls\<lparr>success := Some tpl\<rparr>, [EvParse (Success tpls)]))"

text \<open>
  One block after another: an error ends the function (\<^verbatim>\<open>return err\<close>), otherwise
  the next block goes on with \<^verbatim>\<open>*tpls\<close> as it is.
\<close>

definition and_then ::
  "('f, 't, 'io) compiled \<Rightarrow> (('f, 't) PromptTemplates \<Rightarrow> ('f, 't, 'io) compiled) \<Rightarrow>
   ('f, 't, 'io) compiled" where
  "and_then r block =
    (case r of
       (Some e, tpls, tr) \<Rightarrow> (Some e, tpls, tr)
     | (None, tpls, tr) \<Rightarrow> (case block tpls of (r', tpls', tr') \<Rightarrow> (r', tpls', tr @ tr')))"

text \<open>
  \<^verbatim>\<open>prepareTemplates\<close>: the returned error, the prompt as the call leaves it, and
  the sources handed to \<^verbatim>\<open>Parse\<close>, in order. Only the last line assigns
  \<^verbatim>\<open>p.Templates\<close>.
\<close>

definition prepareTemplates ::
  "('l, 'ptr, 'f, 't, 'c) env \<Rightarrow> ('l, 'ptr, 'f, 't, 'io) Prompt \<Rightarrow>
   error option \<times> ('l, 'ptr, 'f, 't, 'io) Prompt \<times> 'io event list" where
  "prepareTemplates env p =
    (let tpls = (case Templates p of None \<Rightarrow> new_PromptTemplates | Some t \<Rightarrow> t);
         tpls = (if FuncMap tpls = None then tpls\<lparr>FuncMap := Some (pkg_FuncMap env)\<rparr> else tpls)
     in case and_then (and_then (and_then (and_then (and_then
               (compile_prompt env p tpls)
               (compile_valid env))
               (compile_unvalidated env))
               (compile_invalid env))
               (compile_validation env))
               (compile_success env) of
          (Some e, tpls, tr) \<Rightarrow> (Some e, early_return p tpls, tr)
        | (None, tpls, tr) \<Rightarrow> (None, p\<lparr>Templates := Some tpls\<rparr>, tr))"

subsection \<open>Run\<close>

text \<open>Lines 147-152: the validator, or the function that accepts everything.\<close>

definition validFn :: "('l, 'ptr, 'f, 't, 'io) Prompt \<Rightarrow> string \<Rightarrow> error option" where
  "validFn p = (case Validate p of None \<Rightarrow> (\<lambda>x. None) | Some f \<Rightarrow> f)"

text \<open>Lines 154-159: the cursor a run starts with.\<close>

definition initial_input :: "('l, 'ptr, 'f, 't, 'io) Prompt \<Rightarrow> string" where
  "initial_input p = (if IsConfirm p then [] else Default p)"

definition eraseDefault :: "('l, 'ptr, 'f, 't, 'io) Prompt \<Rightarrow> bool" where
  "eraseDefault p = (initial_input p \<noteq> [] \<and> \<not> AllowEdit p)"

definition initial_cursor ::
  "('l, 'ptr, 'f, 't, 'c) env \<Rightarrow> ('l, 'ptr, 'f, 't, 'io) Prompt \<Rightarrow> 'c" where
  "initial_cursor env p = NewCursor env (initial_input p) (Pointer p) (eraseDefault p)"

text \<open>Lines 131-138: the configuration of the engine.\<close>

definition config :: "('l, 'ptr, 'f, 't, 'io) Prompt \<Rightarrow> 'io Config" where
  "config p =
     \<lparr>cfg_Stdin = Stdin p, cfg_Stdout = Stdout p, EnableMask = (Mask p \<noteq> 0),
      MaskRune = Mask p, HistoryLimit = - 1, VimMode = IsVimMode p\<rparr>"

text \<open>
  Lines 140-159, once the engine is built: the variables when \<^verbatim>\<open>ReadLine\<close> is
  called. \<open>tr\<close> holds the events of \<^verbatim>\<open>prepareTemplates\<close>.
\<close>

definition before_ReadLine ::
  "('l, 'ptr, 'f, 't, 'c) env \<Rightarrow> ('l, 'ptr, 'f, 't, 'io) Prompt \<Rightarrow> 'io event list \<Rightarrow> ('c, 'io) vars" where
  "before_ReadLine env p tr =
     \<lparr>cur = initial_cursor env p, err = None,
      trace = tr @ [EvNewFromConfig (config p), EvWrite (hideCursor env)]\<rparr>"

text \<open>
  Lines 161-189, the closure \<^verbatim>\<open>listen\<close>. \<open>tpls\<close> is \<^verbatim>\<open>*p.Templates\<close>. The result
  is the variables after the call and the triple handed back to the engine
  (\<^verbatim>\<open>nil, 0, keepOn\<close>).
\<close>

definition listen ::
  "('l, 'ptr, 'f, 't, 'c) env \<Rightarrow> ('l, 'ptr, 'f, 't, 'io) Prompt \<Rightarrow> ('f, 't) PromptTemplates \<Rightarrow>
   ('c, 'io) vars \<Rightarrow> rune list option \<Rightarrow> int \<Rightarrow> rune \<Rightarrow>
   ('c, 'io) vars \<times> rune list option \<times> int \<times> bool" where
  "listen env p tpls v input pos key =
    (let (c, _, _, keepOn) = Listen env (cur v) input pos key;
         (line, called) =
           (if \<not> LazyValidation p then
              (let e = validFn p (Get env c)
               in (if e \<noteq> None then render env (invalid tpls) (OfLabel (Label p))
                   else (let l = render env (valid tpls) (OfLabel (Label p))
                         in if IsConfirm p then render env (prompt tpls) (OfLabel (Label p)) else l),
                   [EvValidate (Get env c)]))
            else (render env (unvalidated tpls) (OfLabel (Label p)), []));
         echo = (if Mask p \<noteq> 0 then FormatMask env c (Mask p) else Format env c)
     in (v\<lparr>cur := c, trace := trace v @ called @ [EvSetPrompt (line @ echo), EvRefresh]\<rparr>,
         None, 0, keepOn))"

text \<open>
  Lines 192-204, the closure assigned to \<^verbatim>\<open>c.FuncFilterInputRune\<close>. The second
  component of its result tells the engine whether to process the key.
\<close>

definition filterInputRune ::
  "('l, 'ptr, 'f, 't, 'c) env \<Rightarrow> ('l, 'ptr, 'f, 't, 'io) Prompt \<Rightarrow> ('f, 't) PromptTemplates \<Rightarrow>
   ('c, 'io) vars \<Rightarrow> rune \<Rightarrow> ('c, 'io) vars \<times> rune \<times> bool" where
  "filterInputRune env p tpls v r =
    (if r = CharEnter env \<or> r = CharCtrlJ env then
       (let e = validFn p (Get env (cur v));
            v = v\<lparr>err := e, trace := trace v @ [EvValidate (Get env (cur v))]\<rparr>
        in case e of
             Some x \<Rightarrow>
               (v\<lparr>trace := trace v @ [EvSetPrompt (render env (validation tpls) (OfError x))]\<rparr>,
                r, False)
           | None \<Rightarrow> (v, r, True))
     else (v, r, True))"

text \<open>
  Line 206, \<^verbatim>\<open>_, err = rl.ReadLine()\<close>: while the call blocks the engine calls
  the hooks; when it returns, its error is assigned to \<^verbatim>\<open>err\<close>.
\<close>

fun run_hooks ::
  "('l, 'ptr, 'f, 't, 'c) env \<Rightarrow> ('l, 'ptr, 'f, 't, 'io) Prompt \<Rightarrow> ('f, 't) PromptTemplates \<Rightarrow>
   ('c, 'io) vars \<Rightarrow> hook_call list \<Rightarrow> ('c, 'io) vars" where
  "run_hooks env p tpls v [] = v"
| "run_hooks env p tpls v (FuncFilterInputRune r # cs) =
     run_hooks env p tpls (fst (filterInputRune env p tpls v r)) cs"
| "run_hooks env p tpls v (Listener input pos key # cs) =
     run_hooks env p tpls (fst (listen env p tpls v input pos key)) cs"

definition ReadLine ::
  "('l, 'ptr, 'f, 't, 'c) env \<Rightarrow> engine \<Rightarrow> ('l, 'ptr, 'f, 't, 'io) Prompt \<Rightarrow>
   ('f, 't) PromptTemplates \<Rightarrow> ('c, 'io) vars \<Rightarrow> ('c, 'io) vars" where
  "ReadLine env eng p tpls v = (run_hooks env p tpls v (hook_calls eng))\<lparr>err := ReadLine_err eng\<rparr>"

text \<open>
  Modelled from the spec: the blocking read of the line-editing engine. The engine is an
  external library and nothing of it is under \<^verbatim>\<open>src/\<close>; sections 4.3, 4.4, 5 and 6 of
  the specification say what it does with the two hooks. For each key it calls the key
  filter. A key the filter rejects is consumed and the engine waits for the next one
  ("consume the Enter keystroke without submitting, and await any further key"). An
  accepted Enter or Ctrl-J completes the read ("the blocking read returns only on Enter,
  interrupt, or end-of-input"). Any other accepted key is processed and the listener is
  called with the buffer, the position and the key. An interrupt signal ends the read
  with the engine's interrupt error, the end of the input stream with the end-of-stream
  error. The edit buffer is the engine's own: each keystroke below comes with the line and
  the position the engine hands to the listener after it.

  \<open>blocking_read\<close> gives the hook calls the engine makes on this input, that is the
  \<open>hook_calls\<close> of an engine, and the error the read ends with, its \<open>ReadLine_err\<close>.
\<close>

datatype input =
    Keystroke rune "rune list option" int
  | InterruptSignal

fun blocking_read ::
  "('l, 'ptr, 'f, 't, 'c) env \<Rightarrow> ('l, 'ptr, 'f, 't, 'io) Prompt \<Rightarrow> ('f, 't) PromptTemplates \<Rightarrow>
   ('c, 'io) vars \<Rightarrow> input list \<Rightarrow> hook_call list \<times> error option" where
  "blocking_read env p tpls v [] = ([], Some io_EOF)"
| "blocking_read env p tpls v (InterruptSignal # rest) = ([], Some readline_ErrInterrupt)"
| "blocking_read env p tpls v (Keystroke r line pos # rest) =
     (case filterInputRune env p tpls v r of
        (v1, r1, accept) \<Rightarrow>
          if \<not> accept then
            (case blocking_read env p tpls v1 rest of
               (cs, e) \<Rightarrow> (FuncFilterInputRune r # cs, e))
          else if r1 = CharEnter env \<or> r1 = CharCtrlJ env then
            ([FuncFilterInputRune r], None)
          else
            (case blocking_read env p tpls (fst (listen env p tpls v1 line pos r1)) rest of
               (cs, e) \<Rightarrow> (FuncFilterInputRune r # Listener line pos r1 # cs, e)))"

text \<open>
  Modelled from the spec: the engine's side of an interactive run of the prompt \<open>p0\<close>,
  built from \<open>blocking_read\<close>. The engine is built without an error and reads the given
  input with the prompt and the templates as \<^verbatim>\<open>prepareTemplates\<close> left them.
\<close>

definition interactive ::
  "('l, 'ptr, 'f, 't, 'c) env \<Rightarrow> ('l, 'ptr, 'f, 't, 'io) Prompt \<Rightarrow> input list \<Rightarrow> engine" where
  "interactive env p0 ins =
    (case prepareTemplates env p0 of
       (r, p, tr) \<Rightarrow>
         (case blocking_read env p
                 (case Templates p of None \<Rightarrow> new_PromptTemplates | Some t \<Rightarrow> t)
                 (before_ReadLine env p tr) ins of
            (cs, e) \<Rightarrow> \<lparr>NewFromConfig_err = None, hook_calls = cs, ReadLine_err = e\<rparr>))"

text \<open>Lines 209-217: the error of \<^verbatim>\<open>ReadLine\<close> as \<^verbatim>\<open>Run\<close> returns it.\<close>

definition ReadLine_error :: "('l, 'ptr, 'f, 't, 'c) env \<Rightarrow> error \<Rightarrow> error" where
  "ReadLine_error env e =
    (let e = (if e = readline_ErrInterrupt then ErrInterrupt
              else if e = io_EOF then ErrEOF
              else e)
     in if Error env e = ''Interrupt'' then ErrInterrupt else e)"

text \<open>Lines 221-244: after \<^verbatim>\<open>ReadLine\<close> has returned without an error.\<close>

definition finish ::
  "('l, 'ptr, 'f, 't, 'c) env \<Rightarrow> ('l, 'ptr, 'f, 't, 'io) Prompt \<Rightarrow> ('f, 't) PromptTemplates \<Rightarrow>
   ('c, 'io) vars \<Rightarrow> outcome \<times> 'io event list" where
  "finish env p tpls v =
    (let echo = (if Mask p \<noteq> 0 then GetMask env (cur v) (Mask p) else Get env (cur v));
         line = render env (success tpls) (OfLabel (Label p)) @ echo;
         (line, e) =
           (if IsConfirm p then
              (let lowerDefault = ToLower env (Default p);
                   inputLower = ToLower env (Get env (cur v))
               in if (lowerDefault = ''y'' \<and> inputLower = ''n'') \<or>
                     (lowerDefault \<noteq> ''y'' \<and> inputLower \<noteq> ''y'')
                  then (render env (invalid tpls) (OfLabel (Label p)), Some ErrAbort)
                  else (line, err v))
            else (line, err v))
     in (Returned (Get env (cur v)) e,
         trace v @ [EvWrite line, EvWrite [CHR 0x0A], EvWrite (showCursor env), EvClose]))"

text \<open>
  \<^verbatim>\<open>Run\<close>. The result is what it returns, the prompt as the call leaves it, and
  the events of the call.
\<close>

definition Run ::
  "('l, 'ptr, 'f, 't, 'c) env \<Rightarrow> engine \<Rightarrow> ('l, 'ptr, 'f, 't, 'io) Prompt \<Rightarrow>
   outcome \<times> ('l, 'ptr, 'f, 't, 'io) Prompt \<times> 'io event list" where
  "Run env eng p0 =
    (case prepareTemplates env p0 of
       (Some e, p, tr) \<Rightarrow> (Returned [] (Some e), p, tr)
     | (None, p, tr) \<Rightarrow>
    (case NewFromConfig_err eng of
       Some e \<Rightarrow> (Returned [] (Some e), p, tr @ [EvNewFromConfig (config p)])
     | None \<Rightarrow>
    (case Templates p of
       None \<Rightarrow> (NilDereference, p, trace (before_ReadLine env p tr))
     | Some tpls \<Rightarrow>
    (let v = ReadLine env eng p tpls (before_ReadLine env p tr)
     in case err v of
          Some e \<Rightarrow> (Returned [] (Some (ReadLine_error env e)), p, trace v)
        | None \<Rightarrow> (case finish env p tpls v of (out, tr) \<Rightarrow> (out, p, tr))))))"

subsection \<open>Notions used to state the properties\<close>

text \<open>An event that is a template compilation: it touches neither engine nor terminal.\<close>

fun is_EvParse :: "'io event \<Rightarrow> bool" where
  "is_EvParse (EvParse s) = True"
| "is_EvParse e = False"

text \<open>
  \<open>sources_kept t t'\<close>: every template source that is not empty in \<open>t\<close>, and a
  function map that is not nil in \<open>t\<close>, is the same in \<open>t'\<close>.
\<close>

definition sources_kept :: "('f, 't) PromptTemplates \<Rightarrow> ('f, 't) PromptTemplates \<Rightarrow> bool" where
  "sources_kept t t' =
    ((Prompt t \<noteq> [] \<longrightarrow> Prompt t' = Prompt t) \<and>
     (Confirm t \<noteq> [] \<longrightarrow> Confirm t' = Confirm t) \<and>
     (Valid t \<noteq> [] \<longrightarrow> Valid t' = Valid t) \<and>
     (Invalid t \<noteq> [] \<longrightarrow> Invalid t' = Invalid t) \<and>
     (Success t \<noteq> [] \<longrightarrow> Success t' = Success t) \<and>
     (Unvalidated t \<noteq> [] \<longrightarrow> Unvalidated t' = Unvalidated t) \<and>
     (ValidationError t \<noteq> [] \<longrightarrow> ValidationError t' = ValidationError t) \<and>
     (FuncMap t \<noteq> None \<longrightarrow> FuncMap t' = FuncMap t))"

text \<open>
  \<open>prepared env p t0 t\<close>: \<open>t\<close> is \<open>t0\<close> as a \<^verbatim>\<open>prepareTemplates\<close> that compiles all
  six templates of the prompt \<open>p\<close> leaves it. A nil function map has become the package's;
  the source of the mode's prompt template (\<open>Confirm\<close> for a confirmation, \<open>Prompt\<close>
  otherwise) and the five other sources are the built-in ones where they were empty and
  as they were otherwise; the other mode's source is as it was; each compiled template is
  the compilation of its source.
\<close>

definition prepared ::
  "('l, 'ptr, 'f, 't, 'c) env \<Rightarrow> ('l, 'ptr, 'f, 't, 'io) Prompt \<Rightarrow> ('f, 't) PromptTemplates \<Rightarrow>
   ('f, 't) PromptTemplates \<Rightarrow> bool" where
  "prepared env p t0 t =
    (FuncMap t = (if FuncMap t0 = None then Some (pkg_FuncMap env) else FuncMap t0) \<and>
     Confirm t = (if IsConfirm p \<and> Confirm t0 = [] then builtin_Confirm env p else Confirm t0) \<and>
     Prompt t = (if \<not> IsConfirm p \<and> Prompt t0 = [] then builtin_Prompt env else Prompt t0) \<and>
     Valid t = (if Valid t0 = [] then builtin_Valid env else Valid t0) \<and>
     Unvalidated t = (if Unvalidated t0 = [] then builtin_Unvalidated env else Unvalidated t0) \<and>
     Invalid t = (if Invalid t0 = [] then builtin_Invalid env else Invalid t0) \<and>
     ValidationError t =
       (if ValidationError t0 = [] then builtin_ValidationError else ValidationError t0) \<and>
     Success t = (if Success t0 = [] then builtin_Success env else Success t0) \<and>
     (\<exists>c. prompt t = Some c \<and>
          template_Parse env (FuncMap t) (if IsConfirm p then Confirm t else Prompt t) = Inr c) \<and>
     (\<exists>c. valid t = Some c \<and> template_Parse env (FuncMap t) (Valid t) = Inr c) \<and>
     (\<exists>c. unvalidated t = Some c \<and> template_Parse env (FuncMap t) (Unvalidated t) = Inr c) \<and>
     (\<exists>c. invalid t = Some c \<and> template_Parse env (FuncMap t) (Invalid t) = Inr c) \<and>
     (\<exists>c. validation t = Some c \<and> template_Parse env (FuncMap t) (ValidationError t) = Inr c) \<and>
     (\<exists>c. success t = Some c \<and> template_Parse env (FuncMap t) (Success t) = Inr c))"

text \<open>
  \<open>partly_prepared env p t0 t\<close>: \<open>t\<close> is \<open>t0\<close> as a \<^verbatim>\<open>prepareTemplates\<close> that stops
  at a failed compilation leaves it. A nil function map has become the package's; each
  source is as it was or, if it was empty (and belongs to the mode of the prompt), the
  built-in one; each compiled template is as it was or the compilation of its source.
\<close>

definition partly_prepared ::
  "('l, 'ptr, 'f, 't, 'c) env \<Rightarrow> ('l, 'ptr, 'f, 't, 'io) Prompt \<Rightarrow> ('f, 't) PromptTemplates \<Rightarrow>
   ('f, 't) PromptTemplates \<Rightarrow> bool" where
  "partly_prepared env p t0 t =
    (FuncMap t = (if FuncMap t0 = None then Some (pkg_FuncMap env) else FuncMap t0) \<and>
     (Confirm t = Confirm t0 \<or>
        IsConfirm p \<and> Confirm t0 = [] \<and> Confirm t = builtin_Confirm env p) \<and>
     (Prompt t = Prompt t0 \<or>
        \<not> IsConfirm p \<and> Prompt t0 = [] \<and> Prompt t = builtin_Prompt env) \<and>
     (Valid t = Valid t0 \<or> Valid t0 = [] \<and> Valid t = builtin_Valid env) \<and>
     (Unvalidated t = Unvalidated t0 \<or>
        Unvalidated t0 = [] \<and> Unvalidated t = builtin_Unvalidated env) \<and>
     (Invalid t = Invalid t0 \<or> Invalid t0 = [] \<and> Invalid t = builtin_Invalid env) \<and>
     (ValidationError t = ValidationError t0 \<or>
        ValidationError t0 = [] \<and> ValidationError t = builtin_ValidationError) \<and>
     (Success t = Success t0 \<or> Success t0 = [] \<and> Success t = builtin_Success env) \<and>
     (prompt t = prompt t0 \<or>
        (\<exists>c. prompt t = Some c \<and>
           template_Parse env (FuncMap t) (if IsConfirm p then Confirm t else Prompt t) = Inr c)) \<and>
     (valid t = valid t0 \<or>
        (\<exists>c. valid t = Some c \<and> template_Parse env (FuncMap t) (Valid t) = Inr c)) \<and>
     (unvalidated t = unvalidated t0 \<or>
        (\<exists>c. unvalidated t = Some c \<and> template_Parse env (FuncMap t) (Unvalidated t) = Inr c)) \<and>
     (invalid t = invalid t0 \<or>
        (\<exists>c. invalid t = Some c \<and> template_Parse env (FuncMap t) (Invalid t) = Inr c)) \<and>
     (validation t = validation t0 \<or>
        (\<exists>c. validation t = Some c \<and>
           template_Parse env (FuncMap t) (ValidationError t) = Inr c)) \<and>
     (success t = success t0 \<or>
        (\<exists>c. success t = Some c \<and> template_Parse env (FuncMap t) (Success t) = Inr c)))"

text \<open>A call of the listener; a call, of either hook, for a key other than Enter and Ctrl-J.\<close>

fun is_Listener :: "hook_call \<Rightarrow> bool" where
  "is_Listener (Listener input pos key) = True"
| "is_Listener (FuncFilterInputRune r) = False"

fun non_Enter :: "('l, 'ptr, 'f, 't, 'c) env \<Rightarrow> hook_call \<Rightarrow> bool" where
  "non_Enter env (FuncFilterInputRune r) = (r \<noteq> CharEnter env \<and> r \<noteq> CharCtrlJ env)"
| "non_Enter env (Listener input pos key) = (key \<noteq> CharEnter env \<and> key \<noteq> CharCtrlJ env)"

text \<open>
  \<open>reports_parse_error env e tr\<close>: the last event of \<open>tr\<close> is the compilation of a
  source on which \<^verbatim>\<open>Parse\<close> fails with \<open>e\<close>.
\<close>

definition reports_parse_error ::
  "('l, 'ptr, 'f, 't, 'c) env \<Rightarrow> error \<Rightarrow> 'io event list \<Rightarrow> bool" where
  "reports_parse_error env e tr =
     (\<exists>fm src. tr \<noteq> [] \<and> last tr = EvParse src \<and> template_Parse env fm src = Inl e)"

subsection \<open>A concrete environment\<close>

text \<open>
  To evaluate the definitions on concrete runs the collaborators need values. The ones
  below are deliberately plain: a template source compiles to itself unless it is the
  unclosed action \<^verbatim>\<open>{{\<close>; rendering puts the rendered value after the compiled
  template; the stylers add nothing; the cursor holds the candidate and takes the line
  the engine reports; lower-casing acts on ASCII letters; the errors' texts are those of
  \<^verbatim>\<open>errors.New\<close> for the package's sentinels.
\<close>

definition demo_ToLower :: "string \<Rightarrow> string" where
  "demo_ToLower s =
     map (\<lambda>c. if 65 \<le> (of_char c :: nat) \<and> (of_char c :: nat) \<le> 90
              then char_of (of_char c + 32 :: nat) else c) s"

definition demo_Error :: "error \<Rightarrow> string" where
  "demo_Error e =
     (case e of
        ErrInterrupt \<Rightarrow> ''^C''
      | ErrEOF \<Rightarrow> ''^D''
      | ErrAbort \<Rightarrow> []
      | readline_ErrInterrupt \<Rightarrow> ''Interrupt''
      | io_EOF \<Rightarrow> ''EOF''
      | OtherError s \<Rightarrow> s)"

definition demo_env :: "(string, unit, unit, string, string) env" where
  "demo_env =
     \<lparr>template_Parse =
        (\<lambda>fm src. if src = ''{{'' then Inl (OtherError ''unclosed action'') else Inr src),
      render =
        (\<lambda>t d. (case t of None \<Rightarrow> [] | Some src \<Rightarrow> src) @
                (case d of OfLabel l \<Rightarrow> l | OfError e \<Rightarrow> demo_Error e)),
      pkg_FuncMap = (),
      IconInitial = ''?'', IconGood = ''+'', IconBad = ''x'',
      Styler_FGBold = (\<lambda>s. s), Styler_FGFaint = (\<lambda>s. s),
      hideCursor = ''<hide>'', showCursor = ''<show>'',
      NewCursor = (\<lambda>input ptr erase. input),
      Listen =
        (\<lambda>c input pos key.
           (case input of None \<Rightarrow> c | Some l \<Rightarrow> map (\<lambda>r. char_of (unat r)) l, input, pos, True)),
      Get = (\<lambda>c. c),
      GetMask = (\<lambda>c m. replicate (length c) (char_of (unat m))),
      Format = (\<lambda>c. c),
      FormatMask = (\<lambda>c m. replicate (length c) (char_of (unat m))),
      ToLower = demo_ToLower,
      Error = demo_Error,
      CharEnter = 13, CharCtrlJ = 10\<rparr>"

text \<open>A confirmation prompt with default \<^verbatim>\<open>y\<close> and no templates of its own.\<close>

definition demo_confirm :: "(string, unit, unit, string, unit) Prompt" where
  "demo_confirm =
     \<lparr>Label = ''Go on'', Default = ''y'', AllowEdit = False, Validate = None, Mask = 0,
      LazyValidation = False, Templates = None, IsConfirm = True, IsVimMode = False,
      Pointer = (), Stdin = (), Stdout = ()\<rparr>"

text \<open>
  An input prompt whose validator rejects everything but \<^verbatim>\<open>ok\<close>, with a set of
  templates of its own.
\<close>

definition demo_validator :: "string \<Rightarrow> error option" where
  "demo_validator s = (if s = ''ok'' then None else Some (OtherError ''not ok''))"

definition demo_templates :: "(unit, string) PromptTemplates" where
  "demo_templates = new_PromptTemplates\<lparr>Valid := ''V '', Invalid := ''I '', Unvalidated := ''U ''\<rparr>"

definition demo_input :: "(string, unit, unit, string, unit) Prompt" where
  "demo_input =
     \<lparr>Label = ''Word'', Default = ''no'', AllowEdit = True, Validate = Some demo_validator,
      Mask = 0, LazyValidation = False, Templates = Some demo_templates, IsConfirm = False,
      IsVimMode = False, Pointer = (), Stdin = (), Stdout = ()\<rparr>"

text \<open>The same templates with the six compiled ones in place.\<close>

definition demo_compiled :: "(unit, string) PromptTemplates" where
  "demo_compiled =
     demo_templates\<lparr>prompt := Some ''P '', valid := Some ''V '', invalid := Some ''I '',
       validation := Some ''E '', success := Some ''S '', unvalidated := Some ''U ''\<rparr>"

text \<open>The input prompt with an invalid template that does not parse.\<close>

definition demo_malformed :: "(string, unit, unit, string, unit) Prompt" where
  "demo_malformed = demo_input\<lparr>Templates := Some (demo_templates\<lparr>Invalid := ''{{''\<rparr>)\<rparr>"

text \<open>The engine reports the key \<^verbatim>\<open>n\<close>, then Enter, and \<^verbatim>\<open>ReadLine\<close> returns.\<close>

definition demo_types_n :: engine where
  "demo_types_n =
     \<lparr>NewFromConfig_err = None,
      hook_calls = [FuncFilterInputRune 110, Listener (Some [110]) 1 110, FuncFilterInputRune 13],
      ReadLine_err = None\<rparr>"

text \<open>The engine reports the key \<^verbatim>\<open>n\<close>, then \<^verbatim>\<open>ReadLine\<close> is interrupted.\<close>

definition demo_interrupted :: engine where
  "demo_interrupted =
     \<lparr>NewFromConfig_err = None,
      hook_calls = [FuncFilterInputRune 110, Listener (Some [110]) 1 110],
      ReadLine_err = Some readline_ErrInterrupt\<rparr>"

text \<open>The engine reports the key \<^verbatim>\<open>n\<close>, then the input ends.\<close>

definition demo_eof :: engine where
  "demo_eof =
     \<lparr>NewFromConfig_err = None,
      hook_calls = [FuncFilterInputRune 110, Listener (Some [110]) 1 110],
      ReadLine_err = Some io_EOF\<rparr>"

section \<open>Properties\<close>

subsection \<open>Blocks of prepareTemplates\<close>

lemma sources_kept_refl: "sources_kept t t"
  by (simp add: sources_kept_def)

lemma sources_kept_trans: "sources_kept a b \<Longrightarrow> sources_kept b c \<Longrightarrow> sources_kept a c"
  unfolding sources_kept_def by (intro conjI impI) simp_all

lemma and_then_None:
  assumes "and_then r f = (None, t', tr')"
  obtains t tr tr2 where "r = (None, t, tr)" "f t = (None, t', tr2)" "tr' = tr @ tr2"
  using assms by (auto simp: and_then_def split: prod.splits option.splits)

lemma and_then_events:
  assumes "list_all is_EvParse (snd (snd r))" "\<And>t. list_all is_EvParse (snd (snd (f t)))"
  shows "list_all is_EvParse (snd (snd (and_then r f)))"
proof (cases r)
  case (fields x t tr)
  show ?thesis
  proof (cases x)
    case None
    obtain x2 t2 tr2 where f: "f t = (x2, t2, tr2)" by (cases "f t")
    with assms(2)[of t] have "list_all is_EvParse tr2" by simp
    with assms(1) fields None f show ?thesis by (simp add: and_then_def)
  next
    case (Some e)
    with assms(1) fields show ?thesis by (simp add: and_then_def)
  qed
qed

lemma and_then_kept:
  assumes "sources_kept t0 (fst (snd r))" "\<And>t. sources_kept t (fst (snd (f t)))"
  shows "sources_kept t0 (fst (snd (and_then r f)))"
proof (cases r)
  case (fields x t tr)
  show ?thesis
  proof (cases x)
    case None
    obtain x2 t2 tr2 where f: "f t = (x2, t2, tr2)" by (cases "f t")
    with assms(2)[of t] have "sources_kept t t2" by simp
    with assms(1) fields have "sources_kept t0 t2" by (auto intro: sources_kept_trans)
    with fields None f show ?thesis by (simp add: and_then_def)
  next
    case (Some e)
    with assms(1) fields show ?thesis by (simp add: and_then_def)
  qed
qed

lemma compile_prompt_events: "list_all is_EvParse (snd (snd (compile_prompt env p t)))"
  by (simp add: compile_prompt_def Let_def split: sum.splits)

lemma compile_valid_events: "list_all is_EvParse (snd (snd (compile_valid env t)))"
  by (simp add: compile_valid_def Let_def split: sum.splits)

lemma compile_unvalidated_events: "list_all is_EvParse (snd (snd (compile_unvalidated env t)))"
  by (simp add: compile_unvalidated_def Let_def split: sum.splits)

lemma compile_invalid_events: "list_all is_EvParse (snd (snd (compile_invalid env t)))"
  by (simp add: compile_invalid_def Let_def split: sum.splits)

lemma compile_validation_events: "list_all is_EvParse (snd (snd (compile_validation env t)))"
  by (simp add: compile_validation_def Let_def split: sum.splits)

lemma compile_success_events: "list_all is_EvParse (snd (snd (compile_success env t)))"
  by (simp add: compile_success_def Let_def split: sum.splits)

lemma compile_prompt_kept: "sources_kept t (fst (snd (compile_prompt env p t)))"
  by (simp add: compile_prompt_def sources_kept_def Let_def split: sum.splits)

lemma compile_valid_kept: "sources_kept t (fst (snd (compile_valid env t)))"
  by (simp add: compile_valid_def sources_kept_def Let_def split: sum.splits)

lemma compile_unvalidated_kept: "sources_kept t (fst (snd (compile_unvalidated env t)))"
  by (simp add: compile_unvalidated_def sources_kept_def Let_def split: sum.splits)

lemma compile_invalid_kept: "sources_kept t (fst (snd (compile_invalid env t)))"
  by (simp add: compile_invalid_def sources_kept_def Let_def split: sum.splits)

lemma compile_validation_kept: "sources_kept t (fst (snd (compile_validation env t)))"
  by (simp add: compile_validation_def sources_kept_def Let_def split: sum.splits)

lemma compile_success_kept: "sources_kept t (fst (snd (compile_success env t)))"
  by (simp add: compile_success_def sources_kept_def Let_def split: sum.splits)

lemma early_return_frame:
  "early_return p tpls = p\<lparr>Templates := Templates (early_return p tpls)\<rparr>"
  by (simp add: early_return_def split: option.splits)

lemma prepareTemplates_frame:
  assumes "prepareTemplates env p0 = (r, p, tr)"
  shows "p = p0\<lparr>Templates := Templates p\<rparr>"
  using assms early_return_frame[of p0]
  by (auto simp: prepareTemplates_def Let_def split: prod.splits option.splits)

lemma prepareTemplates_events:
  "list_all is_EvParse (snd (snd (prepareTemplates env p)))"
proof -
  let ?t0 = "case Templates p of None \<Rightarrow> new_PromptTemplates | Some t \<Rightarrow> t"
  let ?t = "if FuncMap ?t0 = None then ?t0\<lparr>FuncMap := Some (pkg_FuncMap env)\<rparr> else ?t0"
  let ?c = "and_then (and_then (and_then (and_then (and_then
               (compile_prompt env p ?t)
               (compile_valid env))
               (compile_unvalidated env))
               (compile_invalid env))
               (compile_validation env))
               (compile_success env)"
  have "list_all is_EvParse (snd (snd ?c))"
    by (intro and_then_events compile_prompt_events compile_valid_events
        compile_unvalidated_events compile_invalid_events compile_validation_events
        compile_success_events)
  then show ?thesis
    by (cases ?c) (auto simp: prepareTemplates_def Let_def split: option.splits)
qed

lemma compile_prompt_None:
  assumes "compile_prompt env p t = (None, t', tr)"
  obtains c where
    "t' = (if IsConfirm p
           then t\<lparr>Confirm := (if Confirm t = [] then builtin_Confirm env p else Confirm t), prompt := Some c\<rparr>
           else t\<lparr>Prompt := (if Prompt t = [] then builtin_Prompt env else Prompt t), prompt := Some c\<rparr>)"
    "template_Parse env (FuncMap t') (if IsConfirm p then Confirm t' else Prompt t') = Inr c"
    "tr = [EvParse (if IsConfirm p then Confirm t' else Prompt t')]"
  using assms
  by (cases "IsConfirm p"; cases "Confirm t = []"; cases "Prompt t = []")
     (auto simp: compile_prompt_def Let_def split: sum.splits)

lemma compile_valid_None:
  assumes "compile_valid env t = (None, t', tr)"
  obtains c where
    "t' = t\<lparr>Valid := (if Valid t = [] then builtin_Valid env else Valid t), valid := Some c\<rparr>"
    "template_Parse env (FuncMap t') (Valid t') = Inr c"
    "tr = [EvParse (Valid t')]"
  using assms
  by (cases "Valid t = []") (auto simp: compile_valid_def Let_def split: sum.splits)

lemma compile_unvalidated_None:
  assumes "compile_unvalidated env t = (None, t', tr)"
  obtains c where
    "t' = t\<lparr>Unvalidated := (if Unvalidated t = [] then builtin_Unvalidated env else Unvalidated t),
             unvalidated := Some c\<rparr>"
    "template_Parse env (FuncMap t') (Unvalidated t') = Inr c"
    "tr = [EvParse (Unvalidated t')]"
  using assms
  by (cases "Unvalidated t = []") (auto simp: compile_unvalidated_def Let_def split: sum.splits)

lemma compile_invalid_None:
  assumes "compile_invalid env t = (None, t', tr)"
  obtains c where
    "t' = t\<lparr>Invalid := (if Invalid t = [] then builtin_Invalid env else Invalid t), invalid := Some c\<rparr>"
    "template_Parse env (FuncMap t') (Invalid t') = Inr c"
    "tr = [EvParse (Invalid t')]"
  using assms
  by (cases "Invalid t = []") (auto simp: compile_invalid_def Let_def split: sum.splits)

lemma compile_validation_None:
  assumes "compile_validation env t = (None, t', tr)"
  obtains c where
    "t' = t\<lparr>ValidationError := (if ValidationError t = [] then builtin_ValidationError else ValidationError t),
             validation := Some c\<rparr>"
    "template_Parse env (FuncMap t') (ValidationError t') = Inr c"
    "tr = [EvParse (ValidationError t')]"
  using assms
  by (cases "ValidationError t = []") (auto simp: compile_validation_def Let_def split: sum.splits)

lemma compile_success_None:
  assumes "compile_success env t = (None, t', tr)"
  obtains c where
    "t' = t\<lparr>Success := (if Success t = [] then builtin_Success env else Success t), success := Some c\<rparr>"
    "template_Parse env (FuncMap t') (Success t') = Inr c"
    "tr = [EvParse (Success t')]"
  using assms
  by (cases "Success t = []") (auto simp: compile_success_def Let_def split: sum.splits)

text \<open>What a successful \<open>prepareTemplates\<close> leaves behind.\<close>

lemma prepareTemplates_ok:
  assumes "prepareTemplates env p0 = (None, p, tr)"
  obtains t c1 c2 c3 c4 c5 c6 where
    "Templates p = Some t"
    "prompt t = Some c1" "template_Parse env (FuncMap t) (if IsConfirm p0 then Confirm t else Prompt t) = Inr c1"
    "valid t = Some c2" "template_Parse env (FuncMap t) (Valid t) = Inr c2"
    "unvalidated t = Some c3" "template_Parse env (FuncMap t) (Unvalidated t) = Inr c3"
    "invalid t = Some c4" "template_Parse env (FuncMap t) (Invalid t) = Inr c4"
    "validation t = Some c5" "template_Parse env (FuncMap t) (ValidationError t) = Inr c5"
    "success t = Some c6" "template_Parse env (FuncMap t) (Success t) = Inr c6"
    "tr = [EvParse (if IsConfirm p0 then Confirm t else Prompt t), EvParse (Valid t),
           EvParse (Unvalidated t), EvParse (Invalid t), EvParse (ValidationError t),
           EvParse (Success t)]"
    "prepared env p0 (case Templates p0 of None \<Rightarrow> new_PromptTemplates | Some t \<Rightarrow> t) t"
proof -
  let ?z = "case Templates p0 of None \<Rightarrow> new_PromptTemplates | Some t \<Rightarrow> t"
  let ?t = "if FuncMap ?z = None then ?z\<lparr>FuncMap := Some (pkg_FuncMap env)\<rparr> else ?z"
  let ?c = "and_then (and_then (and_then (and_then (and_then
               (compile_prompt env p0 ?t)
               (compile_valid env))
               (compile_unvalidated env))
               (compile_invalid env))
               (compile_validation env))
               (compile_success env)"
  obtain x t6 tr' where c: "?c = (x, t6, tr')" by (cases ?c)
  with assms have x: "x = None" and p: "p = p0\<lparr>Templates := Some t6\<rparr>" and tr: "tr' = tr"
    by (auto simp: prepareTemplates_def Let_def split: option.splits)
  from c x obtain t5 tr5 e6 where
    c5: "and_then (and_then (and_then (and_then
               (compile_prompt env p0 ?t)
               (compile_valid env))
               (compile_unvalidated env))
               (compile_invalid env))
               (compile_validation env) = (None, t5, tr5)"
    and b6: "compile_success env t5 = (None, t6, e6)" and tr6: "tr' = tr5 @ e6"
    by (auto elim: and_then_None)
  from c5 obtain t4 tr4 e5 where
    c4: "and_then (and_then (and_then
               (compile_prompt env p0 ?t)
               (compile_valid env))
               (compile_unvalidated env))
               (compile_invalid env) = (None, t4, tr4)"
    and b5: "compile_validation env t4 = (None, t5, e5)" and tr5: "tr5 = tr4 @ e5"
    by (auto elim: and_then_None)
  from c4 obtain t3 tr3 e4 where
    c3: "and_then (and_then
               (compile_prompt env p0 ?t)
               (compile_valid env))
               (compile_unvalidated env) = (None, t3, tr3)"
    and b4: "compile_invalid env t3 = (None, t4, e4)" and tr4: "tr4 = tr3 @ e4"
    by (auto elim: and_then_None)
  from c3 obtain t2 tr2 e3 where
    c2: "and_then (compile_prompt env p0 ?t) (compile_valid env) = (None, t2, tr2)"
    and b3: "compile_unvalidated env t2 = (None, t3, e3)" and tr3: "tr3 = tr2 @ e3"
    by (auto elim: and_then_None)
  from c2 obtain t1 e1 e2 where
    b1: "compile_prompt env p0 ?t = (None, t1, e1)"
    and b2: "compile_valid env t1 = (None, t2, e2)" and tr2: "tr2 = e1 @ e2"
    by (auto elim: and_then_None)
  from b1 obtain c1 where
    t1: "t1 = (if IsConfirm p0
           then ?t\<lparr>Confirm := (if Confirm ?t = [] then builtin_Confirm env p0 else Confirm ?t), prompt := Some c1\<rparr>
           else ?t\<lparr>Prompt := (if Prompt ?t = [] then builtin_Prompt env else Prompt ?t), prompt := Some c1\<rparr>)"
    and p1: "template_Parse env (FuncMap t1) (if IsConfirm p0 then Confirm t1 else Prompt t1) = Inr c1"
    and e1: "e1 = [EvParse (if IsConfirm p0 then Confirm t1 else Prompt t1)]"
    by (rule compile_prompt_None)
  have q1: "prompt t1 = Some c1" using t1 by (cases "IsConfirm p0") simp_all
  from b2 obtain c2 where
    t2: "t2 = t1\<lparr>Valid := (if Valid t1 = [] then builtin_Valid env else Valid t1), valid := Some c2\<rparr>"
    and p2: "template_Parse env (FuncMap t2) (Valid t2) = Inr c2" and e2: "e2 = [EvParse (Valid t2)]"
    by (rule compile_valid_None)
  from b3 obtain c3 where
    t3: "t3 = t2\<lparr>Unvalidated := (if Unvalidated t2 = [] then builtin_Unvalidated env else Unvalidated t2),
             unvalidated := Some c3\<rparr>"
    and p3: "template_Parse env (FuncMap t3) (Unvalidated t3) = Inr c3"
    and e3: "e3 = [EvParse (Unvalidated t3)]"
    by (rule compile_unvalidated_None)
  from b4 obtain c4 where
    t4: "t4 = t3\<lparr>Invalid := (if Invalid t3 = [] then builtin_Invalid env else Invalid t3), invalid := Some c4\<rparr>"
    and p4: "template_Parse env (FuncMap t4) (Invalid t4) = Inr c4" and e4: "e4 = [EvParse (Invalid t4)]"
    by (rule compile_invalid_None)
  from b5 obtain c5 where
    t5: "t5 = t4\<lparr>ValidationError := (if ValidationError t4 = [] then builtin_ValidationError else ValidationError t4),
             validation := Some c5\<rparr>"
    and p5: "template_Parse env (FuncMap t5) (ValidationError t5) = Inr c5"
    and e5: "e5 = [EvParse (ValidationError t5)]"
    by (rule compile_validation_None)
  from b6 obtain c6 where
    t6: "t6 = t5\<lparr>Success := (if Success t5 = [] then builtin_Success env else Success t5), success := Some c6\<rparr>"
    and p6: "template_Parse env (FuncMap t6) (Success t6) = Inr c6" and e6: "e6 = [EvParse (Success t6)]"
    by (rule compile_success_None)
  have f: "FuncMap t6 = FuncMap t1" "FuncMap t5 = FuncMap t1" "FuncMap t4 = FuncMap t1"
    "FuncMap t3 = FuncMap t1" "FuncMap t2 = FuncMap t1"
    by (simp_all add: t2 t3 t4 t5 t6)
  have s: "Confirm t6 = Confirm t1" "Prompt t6 = Prompt t1" "Valid t6 = Valid t2"
    "Unvalidated t6 = Unvalidated t3" "Invalid t6 = Invalid t4" "ValidationError t6 = ValidationError t5"
    by (simp_all add: t2 t3 t4 t5 t6)
  have q: "prompt t6 = Some c1" "valid t6 = Some c2" "unvalidated t6 = Some c3" "invalid t6 = Some c4"
    "validation t6 = Some c5" "success t6 = Some c6"
    using q1 by (simp_all add: t2 t3 t4 t5 t6)
  have src: "FuncMap t6 = (if FuncMap ?z = None then Some (pkg_FuncMap env) else FuncMap ?z)"
    "Confirm t6 = (if IsConfirm p0 \<and> Confirm ?z = [] then builtin_Confirm env p0 else Confirm ?z)"
    "Prompt t6 = (if \<not> IsConfirm p0 \<and> Prompt ?z = [] then builtin_Prompt env else Prompt ?z)"
    "Valid t6 = (if Valid ?z = [] then builtin_Valid env else Valid ?z)"
    "Unvalidated t6 = (if Unvalidated ?z = [] then builtin_Unvalidated env else Unvalidated ?z)"
    "Invalid t6 = (if Invalid ?z = [] then builtin_Invalid env else Invalid ?z)"
    "ValidationError t6 =
       (if ValidationError ?z = [] then builtin_ValidationError else ValidationError ?z)"
    "Success t6 = (if Success ?z = [] then builtin_Success env else Success ?z)"
    by (cases "IsConfirm p0"; simp add: t1 t2 t3 t4 t5 t6)+
  show ?thesis
  proof (rule that[of t6 c1 c2 c3 c4 c5 c6])
    show "prepared env p0 ?z t6"
      unfolding prepared_def
    proof (intro conjI)
      show "\<exists>c. prompt t6 = Some c \<and>
          template_Parse env (FuncMap t6) (if IsConfirm p0 then Confirm t6 else Prompt t6) = Inr c"
        using q(1) p1 f s by (cases "IsConfirm p0") simp_all
      show "\<exists>c. valid t6 = Some c \<and> template_Parse env (FuncMap t6) (Valid t6) = Inr c"
        using q(2) p2 f s by simp
      show "\<exists>c. unvalidated t6 = Some c \<and> template_Parse env (FuncMap t6) (Unvalidated t6) = Inr c"
        using q(3) p3 f s by simp
      show "\<exists>c. invalid t6 = Some c \<and> template_Parse env (FuncMap t6) (Invalid t6) = Inr c"
        using q(4) p4 f s by simp
      show "\<exists>c. validation t6 = Some c \<and>
          template_Parse env (FuncMap t6) (ValidationError t6) = Inr c"
        using q(5) p5 f s by simp
      show "\<exists>c. success t6 = Some c \<and> template_Parse env (FuncMap t6) (Success t6) = Inr c"
        using q(6) p6 f s by simp
    qed (rule src)+
    show "Templates p = Some t6" by (simp add: p)
    show "tr = [EvParse (if IsConfirm p0 then Confirm t6 else Prompt t6), EvParse (Valid t6),
           EvParse (Unvalidated t6), EvParse (Invalid t6), EvParse (ValidationError t6),
           EvParse (Success t6)]"
    proof -
      have "tr = e1 @ e2 @ e3 @ e4 @ e5 @ e6" using tr tr6 tr5 tr4 tr3 tr2 by simp
      then show ?thesis by (simp add: e1 e2 e3 e4 e5 e6 s)
    qed
  qed (use p1 p2 p3 p4 p5 p6 f s q in \<open>simp_all split: if_splits\<close>)
qed

lemma prepareTemplates_kept:
  assumes "prepareTemplates env p0 = (r, p, tr)" "Templates p0 = Some t0"
  obtains t where "Templates p = Some t" "sources_kept t0 t"
proof -
  let ?t = "if FuncMap t0 = None then t0\<lparr>FuncMap := Some (pkg_FuncMap env)\<rparr> else t0"
  let ?c = "and_then (and_then (and_then (and_then (and_then
               (compile_prompt env p0 ?t)
               (compile_valid env))
               (compile_unvalidated env))
               (compile_invalid env))
               (compile_validation env))
               (compile_success env)"
  have "sources_kept t0 ?t" by (simp add: sources_kept_def)
  then have "sources_kept t0 (fst (snd (compile_prompt env p0 ?t)))"
    using compile_prompt_kept sources_kept_trans by blast
  then have k: "sources_kept t0 (fst (snd ?c))"
    by (intro and_then_kept compile_valid_kept
        compile_unvalidated_kept compile_invalid_kept compile_validation_kept
        compile_success_kept)
  obtain x t6 tr' where c: "?c = (x, t6, tr')" by (cases ?c)
  with assms have "Templates p = Some t6"
    by (auto simp: prepareTemplates_def early_return_def Let_def split: option.splits)
  with k c that show ?thesis by simp
qed

subsection \<open>The two hooks\<close>

lemma listen_trace:
  "\<exists>evs. trace (fst (listen env p tpls v input pos key)) = trace v @ evs \<and> EvClose \<notin> set evs"
  by (cases "Listen env (cur v) input pos key"; cases "LazyValidation p")
     (simp_all add: listen_def Let_def)

lemma filterInputRune_trace:
  "\<exists>evs. trace (fst (filterInputRune env p tpls v r)) = trace v @ evs \<and> EvClose \<notin> set evs"
  by (cases "validFn p (Get env (cur v))") (simp_all add: filterInputRune_def Let_def)

lemma run_hooks_trace:
  obtains evs where "trace (run_hooks env p tpls v cs) = trace v @ evs" "EvClose \<notin> set evs"
proof -
  have "\<exists>evs. trace (run_hooks env p tpls v cs) = trace v @ evs \<and> EvClose \<notin> set evs"
  proof (induction cs arbitrary: v)
    case Nil
    then show ?case by simp
  next
    case (Cons c cs)
    show ?case
    proof (cases c)
      case (FuncFilterInputRune r)
      obtain e1 where e1: "trace (fst (filterInputRune env p tpls v r)) = trace v @ e1" "EvClose \<notin> set e1"
        using filterInputRune_trace by blast
      from Cons.IH[of "fst (filterInputRune env p tpls v r)"] obtain e2 where
        "trace (run_hooks env p tpls (fst (filterInputRune env p tpls v r)) cs) =
         trace (fst (filterInputRune env p tpls v r)) @ e2" "EvClose \<notin> set e2"
        by blast
      with e1 FuncFilterInputRune show ?thesis by (intro exI[of _ "e1 @ e2"]) simp
    next
      case (Listener input pos key)
      obtain e1 where e1: "trace (fst (listen env p tpls v input pos key)) = trace v @ e1" "EvClose \<notin> set e1"
        using listen_trace by blast
      from Cons.IH[of "fst (listen env p tpls v input pos key)"] obtain e2 where
        "trace (run_hooks env p tpls (fst (listen env p tpls v input pos key)) cs) =
         trace (fst (listen env p tpls v input pos key)) @ e2" "EvClose \<notin> set e2"
        by blast
      with e1 Listener show ?thesis by (intro exI[of _ "e1 @ e2"]) simp
    qed
  qed
  with that show ?thesis by blast
qed

subsection \<open>The paths through Run\<close>

lemma Run_prepare_failed:
  assumes "prepareTemplates env p0 = (Some e, p, tr)"
  shows "Run env eng p0 = (Returned [] (Some e), p, tr)"
  using assms by (simp add: Run_def)

lemma Run_engine_failed:
  assumes "prepareTemplates env p0 = (None, p, tr)" "NewFromConfig_err eng = Some e"
  shows "Run env eng p0 = (Returned [] (Some e), p, tr @ [EvNewFromConfig (config p)])"
  using assms by (simp add: Run_def)

lemma Run_read_failed:
  assumes "prepareTemplates env p0 = (None, p, tr)" "Templates p = Some tpls"
    "NewFromConfig_err eng = None" "ReadLine_err eng = Some e"
  shows "Run env eng p0 =
    (Returned [] (Some (ReadLine_error env e)), p,
     trace (run_hooks env p tpls (before_ReadLine env p tr) (hook_calls eng)))"
  using assms by (simp add: Run_def ReadLine_def Let_def)

lemma Run_completed:
  assumes "prepareTemplates env p0 = (None, p, tr)" "Templates p = Some tpls"
    "NewFromConfig_err eng = None" "ReadLine_err eng = None"
  shows "Run env eng p0 =
    (case finish env p tpls (ReadLine env eng p tpls (before_ReadLine env p tr)) of
       (out, tr') \<Rightarrow> (out, p, tr'))"
  using assms by (simp add: Run_def ReadLine_def Let_def)

lemma Run_never_panics: "fst (Run env eng p0) \<noteq> NilDereference"
proof -
  obtain r p tr where pt: "prepareTemplates env p0 = (r, p, tr)" by (cases "prepareTemplates env p0")
  show ?thesis
  proof (cases r)
    case (Some e)
    with pt show ?thesis by (simp add: Run_def)
  next
    case None
    with pt obtain t where "Templates p = Some t" by (auto elim: prepareTemplates_ok)
    with pt None show ?thesis
      by (auto simp: Run_def Let_def finish_def split: option.splits prod.splits)
  qed
qed

lemma Run_prompt: "fst (snd (Run env eng p0)) = fst (snd (prepareTemplates env p0))"
  by (auto simp: Run_def Let_def split: option.splits prod.splits)

subsection \<open>More on prepareTemplates\<close>

lemma and_then_reports:
  assumes "\<forall>e. fst r = Some e \<longrightarrow> reports_parse_error env e (snd (snd r))"
    "\<And>t. \<forall>e. fst (f t) = Some e \<longrightarrow> reports_parse_error env e (snd (snd (f t)))"
  shows "\<forall>e. fst (and_then r f) = Some e \<longrightarrow> reports_parse_error env e (snd (snd (and_then r f)))"
proof (cases r)
  case (fields x t tr)
  show ?thesis
  proof (cases x)
    case None
    obtain x2 t2 tr2 where f: "f t = (x2, t2, tr2)" by (cases "f t")
    have "reports_parse_error env e (tr @ tr2)" if "x2 = Some e" for e
    proof -
      from that assms(2)[of t] f have "reports_parse_error env e tr2" by simp
      then show ?thesis by (auto simp: reports_parse_error_def)
    qed
    with fields None f show ?thesis by (simp add: and_then_def)
  next
    case (Some e')
    with fields assms(1) show ?thesis by (simp add: and_then_def)
  qed
qed

lemma compile_prompt_reports:
  "\<forall>e. fst (compile_prompt env p t) = Some e \<longrightarrow>
   reports_parse_error env e (snd (snd (compile_prompt env p t)))"
  by (cases "IsConfirm p")
     (auto simp: compile_prompt_def reports_parse_error_def Let_def split: sum.splits)

lemma compile_valid_reports:
  "\<forall>e. fst (compile_valid env t) = Some e \<longrightarrow>
   reports_parse_error env e (snd (snd (compile_valid env t)))"
  by (auto simp: compile_valid_def reports_parse_error_def Let_def split: sum.splits)

lemma compile_unvalidated_reports:
  "\<forall>e. fst (compile_unvalidated env t) = Some e \<longrightarrow>
   reports_parse_error env e (snd (snd (compile_unvalidated env t)))"
  by (auto simp: compile_unvalidated_def reports_parse_error_def Let_def split: sum.splits)

lemma compile_invalid_reports:
  "\<forall>e. fst (compile_invalid env t) = Some e \<longrightarrow>
   reports_parse_error env e (snd (snd (compile_invalid env t)))"
  by (auto simp: compile_invalid_def reports_parse_error_def Let_def split: sum.splits)

lemma compile_validation_reports:
  "\<forall>e. fst (compile_validation env t) = Some e \<longrightarrow>
   reports_parse_error env e (snd (snd (compile_validation env t)))"
  by (auto simp: compile_validation_def reports_parse_error_def Let_def split: sum.splits)

lemma compile_success_reports:
  "\<forall>e. fst (compile_success env t) = Some e \<longrightarrow>
   reports_parse_error env e (snd (snd (compile_success env t)))"
  by (auto simp: compile_success_def reports_parse_error_def Let_def split: sum.splits)

lemma prepareTemplates_reports:
  assumes "prepareTemplates env p0 = (Some e, p, tr)"
  shows "reports_parse_error env e tr"
proof -
  let ?t0 = "case Templates p0 of None \<Rightarrow> new_PromptTemplates | Some t \<Rightarrow> t"
  let ?t = "if FuncMap ?t0 = None then ?t0\<lparr>FuncMap := Some (pkg_FuncMap env)\<rparr> else ?t0"
  let ?c = "and_then (and_then (and_then (and_then (and_then
               (compile_prompt env p0 ?t)
               (compile_valid env))
               (compile_unvalidated env))
               (compile_invalid env))
               (compile_validation env))
               (compile_success env)"
  obtain x t6 tr' where c: "?c = (x, t6, tr')" by (cases ?c)
  with assms have x: "x = Some e" "tr' = tr"
    by (auto simp: prepareTemplates_def Let_def split: option.splits)
  have "\<forall>e. fst ?c = Some e \<longrightarrow> reports_parse_error env e (snd (snd ?c))"
    by (intro and_then_reports compile_prompt_reports compile_valid_reports
        compile_unvalidated_reports compile_invalid_reports compile_validation_reports
        compile_success_reports)
  with c x show ?thesis by simp
qed


lemma and_then_invariant:
  assumes "P (fst (snd r))" "\<And>t. P t \<Longrightarrow> P (fst (snd (f t)))"
  shows "P (fst (snd (and_then r f)))"
proof (cases r)
  case (fields x t tr)
  show ?thesis
  proof (cases x)
    case None
    obtain x2 t2 tr2 where f: "f t = (x2, t2, tr2)" by (cases "f t")
    with assms fields have "P t2" by (metis fst_conv snd_conv)
    with fields None f show ?thesis by (simp add: and_then_def)
  next
    case (Some e)
    with assms(1) fields show ?thesis by (simp add: and_then_def)
  qed
qed

lemma compile_valid_Confirm: "Confirm (fst (snd (compile_valid env t))) = Confirm t"
  by (simp add: compile_valid_def Let_def split: sum.splits)

lemma compile_unvalidated_Confirm: "Confirm (fst (snd (compile_unvalidated env t))) = Confirm t"
  by (simp add: compile_unvalidated_def Let_def split: sum.splits)

lemma compile_invalid_Confirm: "Confirm (fst (snd (compile_invalid env t))) = Confirm t"
  by (simp add: compile_invalid_def Let_def split: sum.splits)

lemma compile_validation_Confirm: "Confirm (fst (snd (compile_validation env t))) = Confirm t"
  by (simp add: compile_validation_def Let_def split: sum.splits)

lemma compile_success_Confirm: "Confirm (fst (snd (compile_success env t))) = Confirm t"
  by (simp add: compile_success_def Let_def split: sum.splits)

lemma compile_prompt_Confirm:
  "IsConfirm p \<Longrightarrow>
   Confirm (fst (snd (compile_prompt env p t))) =
     (if Confirm t = [] then builtin_Confirm env p else Confirm t)"
  by (simp add: compile_prompt_def Let_def split: sum.splits)

text \<open>The confirm source a confirmation prompt is left with, whenever it has templates.\<close>

lemma prepareTemplates_Confirm:
  assumes "prepareTemplates env p0 = (r, p, tr)" "IsConfirm p0" "Templates p = Some t"
  shows "Confirm t =
    (case Templates p0 of
       None \<Rightarrow> builtin_Confirm env p0
     | Some t0 \<Rightarrow> if Confirm t0 = [] then builtin_Confirm env p0 else Confirm t0)"
proof -
  let ?t0 = "case Templates p0 of None \<Rightarrow> new_PromptTemplates | Some t \<Rightarrow> t"
  let ?t = "if FuncMap ?t0 = None then ?t0\<lparr>FuncMap := Some (pkg_FuncMap env)\<rparr> else ?t0"
  let ?C = "if Confirm ?t = [] then builtin_Confirm env p0 else Confirm ?t"
  let ?c = "and_then (and_then (and_then (and_then (and_then
               (compile_prompt env p0 ?t)
               (compile_valid env))
               (compile_unvalidated env))
               (compile_invalid env))
               (compile_validation env))
               (compile_success env)"
  have "Confirm (fst (snd ?c)) = ?C"
    by (intro and_then_invariant[where P = "\<lambda>t. Confirm t = ?C"])
       (simp_all add: compile_prompt_Confirm[OF assms(2)] compile_valid_Confirm
          compile_unvalidated_Confirm compile_invalid_Confirm compile_validation_Confirm
          compile_success_Confirm)
  moreover obtain x t6 tr' where c: "?c = (x, t6, tr')" by (cases ?c)
  moreover from c assms(1,3) have "t = t6"
    by (auto simp: prepareTemplates_def early_return_def Let_def split: option.splits)
  ultimately have "Confirm t = ?C" by simp
  then show ?thesis by (simp add: new_PromptTemplates_def split: option.splits)
qed

lemma prepareTemplates_fields:
  assumes "prepareTemplates env p0 = (r, p, tr)"
  shows "Label p = Label p0 \<and> Default p = Default p0 \<and> AllowEdit p = AllowEdit p0 \<and>
    Validate p = Validate p0 \<and> Mask p = Mask p0 \<and> LazyValidation p = LazyValidation p0 \<and>
    IsConfirm p = IsConfirm p0 \<and> IsVimMode p = IsVimMode p0 \<and> Pointer p = Pointer p0 \<and>
    Stdin p = Stdin p0 \<and> Stdout p = Stdout p0"
  using assms
  by (auto simp: prepareTemplates_def early_return_def Let_def split: prod.splits option.splits)

subsection \<open>The default text of a confirmation prompt\<close>

lemma compile_prompt_Default:
  assumes "(ToLower env d = ''y'') = (ToLower env (Default p) = ''y'')"
  shows "compile_prompt env (p\<lparr>Default := d\<rparr>) t = compile_prompt env p t"
  using assms by (simp add: compile_prompt_def builtin_Confirm_def)

lemma prepareTemplates_Default:
  assumes "(ToLower env d = ''y'') = (ToLower env (Default p) = ''y'')"
  shows "prepareTemplates env (p\<lparr>Default := d\<rparr>) =
    (case prepareTemplates env p of (r, p', tr) \<Rightarrow> (r, p'\<lparr>Default := d\<rparr>, tr))"
  by (simp add: prepareTemplates_def compile_prompt_Default[OF assms] early_return_def Let_def
      split: prod.splits option.splits)

lemma listen_Default: "listen env (p\<lparr>Default := d\<rparr>) tpls v input pos key = listen env p tpls v input pos key"
  by (cases "Listen env (cur v) input pos key"; cases "LazyValidation p"; cases "Mask p = 0")
     (simp_all add: listen_def validFn_def Let_def)

lemma filterInputRune_Default: "filterInputRune env (p\<lparr>Default := d\<rparr>) tpls v r = filterInputRune env p tpls v r"
  by (cases "r = CharEnter env \<or> r = CharCtrlJ env")
     (simp_all add: filterInputRune_def validFn_def Let_def)

lemma run_hooks_Default: "run_hooks env (p\<lparr>Default := d\<rparr>) tpls v cs = run_hooks env p tpls v cs"
proof (induction cs arbitrary: v)
  case Nil
  show ?case by simp
next
  case (Cons c cs)
  then show ?case by (cases c) (simp_all add: listen_Default filterInputRune_Default)
qed

lemma before_ReadLine_Default:
  "IsConfirm p \<Longrightarrow> before_ReadLine env (p\<lparr>Default := d\<rparr>) tr = before_ReadLine env p tr"
  by (simp add: before_ReadLine_def initial_cursor_def initial_input_def eraseDefault_def config_def)

lemma finish_Default:
  assumes "(ToLower env d = ''y'') = (ToLower env (Default p) = ''y'')"
  shows "finish env (p\<lparr>Default := d\<rparr>) tpls v = finish env p tpls v"
  using assms by (cases "Mask p = 0"; cases "IsConfirm p") (simp_all add: finish_def Let_def)

lemma Run_Default:
  assumes "IsConfirm p0" "(ToLower env d = ''y'') = (ToLower env (Default p0) = ''y'')"
  shows "Run env eng (p0\<lparr>Default := d\<rparr>) =
    (case Run env eng p0 of (out, p, tr) \<Rightarrow> (out, p\<lparr>Default := d\<rparr>, tr))"
proof -
  obtain r p tr where pt: "prepareTemplates env p0 = (r, p, tr)" by (cases "prepareTemplates env p0")
  then have ptd: "prepareTemplates env (p0\<lparr>Default := d\<rparr>) = (r, p\<lparr>Default := d\<rparr>, tr)"
    by (simp add: prepareTemplates_Default[OF assms(2)])
  from pt have "IsConfirm p = IsConfirm p0" "Default p = Default p0"
    using prepareTemplates_fields by blast+
  with assms have c: "IsConfirm p" and l: "(ToLower env d = ''y'') = (ToLower env (Default p) = ''y'')"
    by simp_all
  have cfg: "config (p\<lparr>Default := d\<rparr>) = config p" by (simp add: config_def)
  show ?thesis
  proof (cases r)
    case (Some e)
    with pt ptd show ?thesis by (simp add: Run_prepare_failed)
  next
    case None
    with pt obtain tpls where t: "Templates p = Some tpls" by (auto elim: prepareTemplates_ok)
    then have td: "Templates (p\<lparr>Default := d\<rparr>) = Some tpls" by simp
    show ?thesis
    proof (cases "NewFromConfig_err eng")
      case (Some e)
      with pt ptd None show ?thesis by (simp add: Run_engine_failed cfg)
    next
      case ok: None
      show ?thesis
      proof (cases "ReadLine_err eng")
        case (Some e)
        with pt ptd None ok t td show ?thesis
          by (simp add: Run_read_failed run_hooks_Default before_ReadLine_Default[OF c])
      next
        case rd: None
        with pt ptd None ok t td show ?thesis
          by (simp add: Run_completed ReadLine_def run_hooks_Default before_ReadLine_Default[OF c]
              finish_Default[OF l] split: prod.splits)
      qed
    qed
  qed
qed

subsection \<open>The events of a run\<close>

lemma Run_trace_after_prepare:
  assumes "prepareTemplates env p0 = (None, p, tr)"
  shows "\<exists>rest. snd (snd (Run env eng p0)) = tr @ EvNewFromConfig (config p) # rest"
proof -
  from assms obtain tpls where t: "Templates p = Some tpls" by (auto elim: prepareTemplates_ok)
  let ?v0 = "before_ReadLine env p tr"
  obtain evs where evs: "trace (run_hooks env p tpls ?v0 (hook_calls eng)) = trace ?v0 @ evs"
    by (rule run_hooks_trace)
  show ?thesis
  proof (cases "NewFromConfig_err eng")
    case (Some e)
    with assms show ?thesis by (simp add: Run_engine_failed)
  next
    case None
    show ?thesis
    proof (cases "ReadLine_err eng")
      case (Some e)
      with assms t None evs show ?thesis
        by (simp add: Run_read_failed before_ReadLine_def)
    next
      case rn: None
      with assms t None evs show ?thesis
        by (simp add: Run_completed finish_def ReadLine_def before_ReadLine_def Let_def
            split: prod.splits)
    qed
  qed
qed

subsection \<open>What prepareTemplates writes\<close>

lemma compile_prompt_writes:
  "fst (snd (compile_prompt env p t)) =
     (if IsConfirm p then
        t\<lparr>Confirm := (if Confirm t = [] then builtin_Confirm env p else Confirm t),
          prompt := (case template_Parse env (FuncMap t)
                            (if Confirm t = [] then builtin_Confirm env p else Confirm t) of
                       Inl e \<Rightarrow> prompt t | Inr c \<Rightarrow> Some c)\<rparr>
      else
        t\<lparr>Prompt := (if Prompt t = [] then builtin_Prompt env else Prompt t),
          prompt := (case template_Parse env (FuncMap t)
                            (if Prompt t = [] then builtin_Prompt env else Prompt t) of
                       Inl e \<Rightarrow> prompt t | Inr c \<Rightarrow> Some c)\<rparr>)"
  by (cases "IsConfirm p"; cases "Confirm t = []"; cases "Prompt t = []")
     (simp_all add: compile_prompt_def Let_def split: sum.splits)

lemma compile_valid_writes:
  "fst (snd (compile_valid env t)) =
     t\<lparr>Valid := (if Valid t = [] then builtin_Valid env else Valid t),
       valid := (case template_Parse env (FuncMap t)
                        (if Valid t = [] then builtin_Valid env else Valid t) of
                   Inl e \<Rightarrow> valid t | Inr c \<Rightarrow> Some c)\<rparr>"
  by (cases "Valid t = []") (simp_all add: compile_valid_def Let_def split: sum.splits)

lemma compile_unvalidated_writes:
  "fst (snd (compile_unvalidated env t)) =
     t\<lparr>Unvalidated := (if Unvalidated t = [] then builtin_Unvalidated env else Unvalidated t),
       unvalidated := (case template_Parse env (FuncMap t)
                        (if Unvalidated t = [] then builtin_Unvalidated env else Unvalidated t) of
                   Inl e \<Rightarrow> unvalidated t | Inr c \<Rightarrow> Some c)\<rparr>"
  by (cases "Unvalidated t = []") (simp_all add: compile_unvalidated_def Let_def split: sum.splits)

lemma compile_invalid_writes:
  "fst (snd (compile_invalid env t)) =
     t\<lparr>Invalid := (if Invalid t = [] then builtin_Invalid env else Invalid t),
       invalid := (case template_Parse env (FuncMap t)
                        (if Invalid t = [] then builtin_Invalid env else Invalid t) of
                   Inl e \<Rightarrow> invalid t | Inr c \<Rightarrow> Some c)\<rparr>"
  by (cases "Invalid t = []") (simp_all add: compile_invalid_def Let_def split: sum.splits)

lemma compile_validation_writes:
  "fst (snd (compile_validation env t)) =
     t\<lparr>ValidationError :=
         (if ValidationError t = [] then builtin_ValidationError else ValidationError t),
       validation := (case template_Parse env (FuncMap t)
                        (if ValidationError t = [] then builtin_ValidationError
                         else ValidationError t) of
                   Inl e \<Rightarrow> validation t | Inr c \<Rightarrow> Some c)\<rparr>"
  by (cases "ValidationError t = []") (simp_all add: compile_validation_def Let_def split: sum.splits)

lemma compile_success_writes:
  "fst (snd (compile_success env t)) =
     t\<lparr>Success := (if Success t = [] then builtin_Success env else Success t),
       success := (case template_Parse env (FuncMap t)
                        (if Success t = [] then builtin_Success env else Success t) of
                   Inl e \<Rightarrow> success t | Inr c \<Rightarrow> Some c)\<rparr>"
  by (cases "Success t = []") (simp_all add: compile_success_def Let_def split: sum.splits)

lemma and_then_tpls:
  "fst (snd (and_then r f)) =
     (if fst r = None then fst (snd (f (fst (snd r)))) else fst (snd r))"
  by (cases r; cases "fst r") (auto simp: and_then_def split: prod.splits)

lemma and_then_fst:
  "fst (and_then r f) = (if fst r = None then fst (f (fst (snd r))) else fst r)"
  by (cases r; cases "fst r") (auto simp: and_then_def split: prod.splits)

lemma compile_prompt_partly:
  assumes "partly_prepared env p t0 t" "Confirm t = Confirm t0" "Prompt t = Prompt t0"
    "prompt t = prompt t0"
  shows "partly_prepared env p t0 (fst (snd (compile_prompt env p t)))"
proof -
  from assms(1) have h:
    "FuncMap t = (if FuncMap t0 = None then Some (pkg_FuncMap env) else FuncMap t0)"
    "Confirm t = Confirm t0 \<or> IsConfirm p \<and> Confirm t0 = [] \<and> Confirm t = builtin_Confirm env p"
    "Prompt t = Prompt t0 \<or> \<not> IsConfirm p \<and> Prompt t0 = [] \<and> Prompt t = builtin_Prompt env"
    "Valid t = Valid t0 \<or> Valid t0 = [] \<and> Valid t = builtin_Valid env"
    "Unvalidated t = Unvalidated t0 \<or> Unvalidated t0 = [] \<and> Unvalidated t = builtin_Unvalidated env"
    "Invalid t = Invalid t0 \<or> Invalid t0 = [] \<and> Invalid t = builtin_Invalid env"
    "ValidationError t = ValidationError t0 \<or> ValidationError t0 = [] \<and> ValidationError t = builtin_ValidationError"
    "Success t = Success t0 \<or> Success t0 = [] \<and> Success t = builtin_Success env"
    "prompt t = prompt t0 \<or> (\<exists>c. prompt t = Some c \<and> template_Parse env (FuncMap t) (if IsConfirm p then Confirm t else Prompt t) = Inr c)"
    "valid t = valid t0 \<or> (\<exists>c. valid t = Some c \<and> template_Parse env (FuncMap t) (Valid t) = Inr c)"
    "unvalidated t = unvalidated t0 \<or> (\<exists>c. unvalidated t = Some c \<and> template_Parse env (FuncMap t) (Unvalidated t) = Inr c)"
    "invalid t = invalid t0 \<or> (\<exists>c. invalid t = Some c \<and> template_Parse env (FuncMap t) (Invalid t) = Inr c)"
    "validation t = validation t0 \<or> (\<exists>c. validation t = Some c \<and> template_Parse env (FuncMap t) (ValidationError t) = Inr c)"
    "success t = success t0 \<or> (\<exists>c. success t = Some c \<and> template_Parse env (FuncMap t) (Success t) = Inr c)"
    unfolding partly_prepared_def by blast+
  show ?thesis
  proof (cases "IsConfirm p")
    case True
    then show ?thesis
      unfolding partly_prepared_def compile_prompt_writes
      apply (simp only: if_True)
      apply (intro conjI)
      subgoal using h(1) by (simp split: if_splits)
      subgoal using assms(2-4) by (auto split: sum.splits)
      subgoal using assms(2-4) by (auto split: sum.splits)
      subgoal using h(4) by (simp split: if_splits)
      subgoal using h(5) by (simp split: if_splits)
      subgoal using h(6) by (simp split: if_splits)
      subgoal using h(7) by (simp split: if_splits)
      subgoal using h(8) by (simp split: if_splits)
      subgoal using assms(2-4) by (auto split: sum.splits)
      subgoal using h(10) by (simp split: if_splits)
      subgoal using h(11) by (simp split: if_splits)
      subgoal using h(12) by (simp split: if_splits)
      subgoal using h(13) by (simp split: if_splits)
      subgoal using h(14) by (simp split: if_splits)
      done
  next
    case False
    then show ?thesis
      unfolding partly_prepared_def compile_prompt_writes
      apply (simp only: if_False)
      apply (intro conjI)
      subgoal using h(1) by (simp split: if_splits)
      subgoal using assms(2-4) by (auto split: sum.splits)
      subgoal using assms(2-4) by (auto split: sum.splits)
      subgoal using h(4) by (simp split: if_splits)
      subgoal using h(5) by (simp split: if_splits)
      subgoal using h(6) by (simp split: if_splits)
      subgoal using h(7) by (simp split: if_splits)
      subgoal using h(8) by (simp split: if_splits)
      subgoal using assms(2-4) by (auto split: sum.splits)
      subgoal using h(10) by (simp split: if_splits)
      subgoal using h(11) by (simp split: if_splits)
      subgoal using h(12) by (simp split: if_splits)
      subgoal using h(13) by (simp split: if_splits)
      subgoal using h(14) by (simp split: if_splits)
      done
  qed
qed

lemma compile_valid_partly:
  assumes "partly_prepared env p t0 t" "Valid t = Valid t0" "valid t = valid t0"
  shows "partly_prepared env p t0 (fst (snd (compile_valid env t)))"
proof -
  from assms(1) have h:
    "FuncMap t = (if FuncMap t0 = None then Some (pkg_FuncMap env) else FuncMap t0)"
    "Confirm t = Confirm t0 \<or> IsConfirm p \<and> Confirm t0 = [] \<and> Confirm t = builtin_Confirm env p"
    "Prompt t = Prompt t0 \<or> \<not> IsConfirm p \<and> Prompt t0 = [] \<and> Prompt t = builtin_Prompt env"
    "Valid t = Valid t0 \<or> Valid t0 = [] \<and> Valid t = builtin_Valid env"
    "Unvalidated t = Unvalidated t0 \<or> Unvalidated t0 = [] \<and> Unvalidated t = builtin_Unvalidated env"
    "Invalid t = Invalid t0 \<or> Invalid t0 = [] \<and> Invalid t = builtin_Invalid env"
    "ValidationError t = ValidationError t0 \<or> ValidationError t0 = [] \<and> ValidationError t = builtin_ValidationError"
    "Success t = Success t0 \<or> Success t0 = [] \<and> Success t = builtin_Success env"
    "prompt t = prompt t0 \<or> (\<exists>c. prompt t = Some c \<and> template_Parse env (FuncMap t) (if IsConfirm p then Confirm t else Prompt t) = Inr c)"
    "valid t = valid t0 \<or> (\<exists>c. valid t = Some c \<and> template_Parse env (FuncMap t) (Valid t) = Inr c)"
    "unvalidated t = unvalidated t0 \<or> (\<exists>c. unvalidated t = Some c \<and> template_Parse env (FuncMap t) (Unvalidated t) = Inr c)"
    "invalid t = invalid t0 \<or> (\<exists>c. invalid t = Some c \<and> template_Parse env (FuncMap t) (Invalid t) = Inr c)"
    "validation t = validation t0 \<or> (\<exists>c. validation t = Some c \<and> template_Parse env (FuncMap t) (ValidationError t) = Inr c)"
    "success t = success t0 \<or> (\<exists>c. success t = Some c \<and> template_Parse env (FuncMap t) (Success t) = Inr c)"
    unfolding partly_prepared_def by blast+
  show ?thesis
    unfolding partly_prepared_def compile_valid_writes
    apply (intro conjI)
    subgoal using h(1) by (simp split: if_splits)
    subgoal using h(2) by (simp split: if_splits)
    subgoal using h(3) by (simp split: if_splits)
    subgoal using assms(2,3) by (auto split: sum.splits)
    subgoal using h(5) by (simp split: if_splits)
    subgoal using h(6) by (simp split: if_splits)
    subgoal using h(7) by (simp split: if_splits)
    subgoal using h(8) by (simp split: if_splits)
    subgoal using h(9) by (simp split: if_splits)
    subgoal using assms(2,3) by (auto split: sum.splits)
    subgoal using h(11) by (simp split: if_splits)
    subgoal using h(12) by (simp split: if_splits)
    subgoal using h(13) by (simp split: if_splits)
    subgoal using h(14) by (simp split: if_splits)
    done
qed

lemma compile_unvalidated_partly:
  assumes "partly_prepared env p t0 t" "Unvalidated t = Unvalidated t0" "unvalidated t = unvalidated t0"
  shows "partly_prepared env p t0 (fst (snd (compile_unvalidated env t)))"
proof -
  from assms(1) have h:
    "FuncMap t = (if FuncMap t0 = None then Some (pkg_FuncMap env) else FuncMap t0)"
    "Confirm t = Confirm t0 \<or> IsConfirm p \<and> Confirm t0 = [] \<and> Confirm t = builtin_Confirm env p"
    "Prompt t = Prompt t0 \<or> \<not> IsConfirm p \<and> Prompt t0 = [] \<and> Prompt t = builtin_Prompt env"
    "Valid t = Valid t0 \<or> Valid t0 = [] \<and> Valid t = builtin_Valid env"
    "Unvalidated t = Unvalidated t0 \<or> Unvalidated t0 = [] \<and> Unvalidated t = builtin_Unvalidated env"
    "Invalid t = Invalid t0 \<or> Invalid t0 = [] \<and> Invalid t = builtin_Invalid env"
    "ValidationError t = ValidationError t0 \<or> ValidationError t0 = [] \<and> ValidationError t = builtin_ValidationError"
    "Success t = Success t0 \<or> Success t0 = [] \<and> Success t = builtin_Success env"
    "prompt t = prompt t0 \<or> (\<exists>c. prompt t = Some c \<and> template_Parse env (FuncMap t) (if IsConfirm p then Confirm t else Prompt t) = Inr c)"
    "valid t = valid t0 \<or> (\<exists>c. valid t = Some c \<and> template_Parse env (FuncMap t) (Valid t) = Inr c)"
    "unvalidated t = unvalidated t0 \<or> (\<exists>c. unvalidated t = Some c \<and> template_Parse env (FuncMap t) (Unvalidated t) = Inr c)"
    "invalid t = invalid t0 \<or> (\<exists>c. invalid t = Some c \<and> template_Parse env (FuncMap t) (Invalid t) = Inr c)"
    "validation t = validation t0 \<or> (\<exists>c. validation t = Some c \<and> template_Parse env (FuncMap t) (ValidationError t) = Inr c)"
    "success t = success t0 \<or> (\<exists>c. success t = Some c \<and> template_Parse env (FuncMap t) (Success t) = Inr c)"
    unfolding partly_prepared_def by blast+
  show ?thesis
    unfolding partly_prepared_def compile_unvalidated_writes
    apply (intro conjI)
    subgoal using h(1) by (simp split: if_splits)
    subgoal using h(2) by (simp split: if_splits)
    subgoal using h(3) by (simp split: if_splits)
    subgoal using h(4) by (simp split: if_splits)
    subgoal using assms(2,3) by (auto split: sum.splits)
    subgoal using h(6) by (simp split: if_splits)
    subgoal using h(7) by (simp split: if_splits)
    subgoal using h(8) by (simp split: if_splits)
    subgoal using h(9) by (simp split: if_splits)
    subgoal using h(10) by (simp split: if_splits)
    subgoal using assms(2,3) by (auto split: sum.splits)
    subgoal using h(12) by (simp split: if_splits)
    subgoal using h(13) by (simp split: if_splits)
    subgoal using h(14) by (simp split: if_splits)
    done
qed

lemma compile_invalid_partly:
  assumes "partly_prepared env p t0 t" "Invalid t = Invalid t0" "invalid t = invalid t0"
  shows "partly_prepared env p t0 (fst (snd (compile_invalid env t)))"
proof -
  from assms(1) have h:
    "FuncMap t = (if FuncMap t0 = None then Some (pkg_FuncMap env) else FuncMap t0)"
    "Confirm t = Confirm t0 \<or> IsConfirm p \<and> Confirm t0 = [] \<and> Confirm t = builtin_Confirm env p"
    "Prompt t = Prompt t0 \<or> \<not> IsConfirm p \<and> Prompt t0 = [] \<and> Prompt t = builtin_Prompt env"
    "Valid t = Valid t0 \<or> Valid t0 = [] \<and> Valid t = builtin_Valid env"
    "Unvalidated t = Unvalidated t0 \<or> Unvalidated t0 = [] \<and> Unvalidated t = builtin_Unvalidated env"
    "Invalid t = Invalid t0 \<or> Invalid t0 = [] \<and> Invalid t = builtin_Invalid env"
    "ValidationError t = ValidationError t0 \<or> ValidationError t0 = [] \<and> ValidationError t = builtin_ValidationError"
    "Success t = Success t0 \<or> Success t0 = [] \<and> Success t = builtin_Success env"
    "prompt t = prompt t0 \<or> (\<exists>c. prompt t = Some c \<and> template_Parse env (FuncMap t) (if IsConfirm p then Confirm t else Prompt t) = Inr c)"
    "valid t = valid t0 \<or> (\<exists>c. valid t = Some c \<and> template_Parse env (FuncMap t) (Valid t) = Inr c)"
    "unvalidated t = unvalidated t0 \<or> (\<exists>c. unvalidated t = Some c \<and> template_Parse env (FuncMap t) (Unvalidated t) = Inr c)"
    "invalid t = invalid t0 \<or> (\<exists>c. invalid t = Some c \<and> template_Parse env (FuncMap t) (Invalid t) = Inr c)"
    "validation t = validation t0 \<or> (\<exists>c. validation t = Some c \<and> template_Parse env (FuncMap t) (ValidationError t) = Inr c)"
    "success t = success t0 \<or> (\<exists>c. success t = Some c \<and> template_Parse env (FuncMap t) (Success t) = Inr c)"
    unfolding partly_prepared_def by blast+
  show ?thesis
    unfolding partly_prepared_def compile_invalid_writes
    apply (intro conjI)
    subgoal using h(1) by (simp split: if_splits)
    subgoal using h(2) by (simp split: if_splits)
    subgoal using h(3) by (simp split: if_splits)
    subgoal using h(4) by (simp split: if_splits)
    subgoal using h(5) by (simp split: if_splits)
    subgoal using assms(2,3) by (auto split: sum.splits)
    subgoal using h(7) by (simp split: if_splits)
    subgoal using h(8) by (simp split: if_splits)
    subgoal using h(9) by (simp split: if_splits)
    subgoal using h(10) by (simp split: if_splits)
    subgoal using h(11) by (simp split: if_splits)
    subgoal using assms(2,3) by (auto split: sum.splits)
    subgoal using h(13) by (simp split: if_splits)
    subgoal using h(14) by (simp split: if_splits)
    done
qed

lemma compile_validation_partly:
  assumes "partly_prepared env p t0 t" "ValidationError t = ValidationError t0" "validation t = validation t0"
  shows "partly_prepared env p t0 (fst (snd (compile_validation env t)))"
proof -
  from assms(1) have h:
    "FuncMap t = (if FuncMap t0 = None then Some (pkg_FuncMap env) else FuncMap t0)"
    "Confirm t = Confirm t0 \<or> IsConfirm p \<and> Confirm t0 = [] \<and> Confirm t = builtin_Confirm env p"
    "Prompt t = Prompt t0 \<or> \<not> IsConfirm p \<and> Prompt t0 = [] \<and> Prompt t = builtin_Prompt env"
    "Valid t = Valid t0 \<or> Valid t0 = [] \<and> Valid t = builtin_Valid env"
    "Unvalidated t = Unvalidated t0 \<or> Unvalidated t0 = [] \<and> Unvalidated t = builtin_Unvalidated env"
    "Invalid t = Invalid t0 \<or> Invalid t0 = [] \<and> Invalid t = builtin_Invalid env"
    "ValidationError t = ValidationError t0 \<or> ValidationError t0 = [] \<and> ValidationError t = builtin_ValidationError"
    "Success t = Success t0 \<or> Success t0 = [] \<and> Success t = builtin_Success env"
    "prompt t = prompt t0 \<or> (\<exists>c. prompt t = Some c \<and> template_Parse env (FuncMap t) (if IsConfirm p then Confirm t else Prompt t) = Inr c)"
    "valid t = valid t0 \<or> (\<exists>c. valid t = Some c \<and> template_Parse env (FuncMap t) (Valid t) = Inr c)"
    "unvalidated t = unvalidated t0 \<or> (\<exists>c. unvalidated t = Some c \<and> template_Parse env (FuncMap t) (Unvalidated t) = Inr c)"
    "invalid t = invalid t0 \<or> (\<exists>c. invalid t = Some c \<and> template_Parse env (FuncMap t) (Invalid t) = Inr c)"
    "validation t = validation t0 \<or> (\<exists>c. validation t = Some c \<and> template_Parse env (FuncMap t) (ValidationError t) = Inr c)"
    "success t = success t0 \<or> (\<exists>c. success t = Some c \<and> template_Parse env (FuncMap t) (Success t) = Inr c)"
    unfolding partly_prepared_def by blast+
  show ?thesis
    unfolding partly_prepared_def compile_validation_writes
    apply (intro conjI)
    subgoal using h(1) by (simp split: if_splits)
    subgoal using h(2) by (simp split: if_splits)
    subgoal using h(3) by (simp split: if_splits)
    subgoal using h(4) by (simp split: if_splits)
    subgoal using h(5) by (simp split: if_splits)
    subgoal using h(6) by (simp split: if_splits)
    subgoal using assms(2,3) by (auto split: sum.splits)
    subgoal using h(8) by (simp split: if_splits)
    subgoal using h(9) by (simp split: if_splits)
    subgoal using h(10) by (simp split: if_splits)
    subgoal using h(11) by (simp split: if_splits)
    subgoal using h(12) by (simp split: if_splits)
    subgoal using assms(2,3) by (auto split: sum.splits)
    subgoal using h(14) by (simp split: if_splits)
    done
qed

lemma compile_success_partly:
  assumes "partly_prepared env p t0 t" "Success t = Success t0" "success t = success t0"
  shows "partly_prepared env p t0 (fst (snd (compile_success env t)))"
proof -
  from assms(1) have h:
    "FuncMap t = (if FuncMap t0 = None then Some (pkg_FuncMap env) else FuncMap t0)"
    "Confirm t = Confirm t0 \<or> IsConfirm p \<and> Confirm t0 = [] \<and> Confirm t = builtin_Confirm env p"
    "Prompt t = Prompt t0 \<or> \<not> IsConfirm p \<and> Prompt t0 = [] \<and> Prompt t = builtin_Prompt env"
    "Valid t = Valid t0 \<or> Valid t0 = [] \<and> Valid t = builtin_Valid env"
    "Unvalidated t = Unvalidated t0 \<or> Unvalidated t0 = [] \<and> Unvalidated t = builtin_Unvalidated env"
    "Invalid t = Invalid t0 \<or> Invalid t0 = [] \<and> Invalid t = builtin_Invalid env"
    "ValidationError t = ValidationError t0 \<or> ValidationError t0 = [] \<and> ValidationError t = builtin_ValidationError"
    "Success t = Success t0 \<or> Success t0 = [] \<and> Success t = builtin_Success env"
    "prompt t = prompt t0 \<or> (\<exists>c. prompt t = Some c \<and> template_Parse env (FuncMap t) (if IsConfirm p then Confirm t else Prompt t) = Inr c)"
    "valid t = valid t0 \<or> (\<exists>c. valid t = Some c \<and> template_Parse env (FuncMap t) (Valid t) = Inr c)"
    "unvalidated t = unvalidated t0 \<or> (\<exists>c. unvalidated t = Some c \<and> template_Parse env (FuncMap t) (Unvalidated t) = Inr c)"
    "invalid t = invalid t0 \<or> (\<exists>c. invalid t = Some c \<and> template_Parse env (FuncMap t) (Invalid t) = Inr c)"
    "validation t = validation t0 \<or> (\<exists>c. validation t = Some c \<and> template_Parse env (FuncMap t) (ValidationError t) = Inr c)"
    "success t = success t0 \<or> (\<exists>c. success t = Some c \<and> template_Parse env (FuncMap t) (Success t) = Inr c)"
    unfolding partly_prepared_def by blast+
  show ?thesis
    unfolding partly_prepared_def compile_success_writes
    apply (intro conjI)
    subgoal using h(1) by (simp split: if_splits)
    subgoal using h(2) by (simp split: if_splits)
    subgoal using h(3) by (simp split: if_splits)
    subgoal using h(4) by (simp split: if_splits)
    subgoal using h(5) by (simp split: if_splits)
    subgoal using h(6) by (simp split: if_splits)
    subgoal using h(7) by (simp split: if_splits)
    subgoal using assms(2,3) by (auto split: sum.splits)
    subgoal using h(9) by (simp split: if_splits)
    subgoal using h(10) by (simp split: if_splits)
    subgoal using h(11) by (simp split: if_splits)
    subgoal using h(12) by (simp split: if_splits)
    subgoal using h(13) by (simp split: if_splits)
    subgoal using assms(2,3) by (auto split: sum.splits)
    done
qed

lemma prepareTemplates_partly:
  assumes "prepareTemplates env p0 = (r, p, tr)" "Templates p0 = Some t0"
  obtains t where "Templates p = Some t" "partly_prepared env p0 t0 t"
proof -
  let ?t = "if FuncMap t0 = None then t0\<lparr>FuncMap := Some (pkg_FuncMap env)\<rparr> else t0"
  define c1 where "c1 = compile_prompt env p0 ?t"
  define c2 where "c2 = and_then c1 (compile_valid env)"
  define c3 where "c3 = and_then c2 (compile_unvalidated env)"
  define c4 where "c4 = and_then c3 (compile_invalid env)"
  define c5 where "c5 = and_then c4 (compile_validation env)"
  define c6 where "c6 = and_then c5 (compile_success env)"
  define T1 where "T1 = fst (snd c1)"
  define T2 where "T2 = fst (snd c2)"
  define T3 where "T3 = fst (snd c3)"
  define T4 where "T4 = fst (snd c4)"
  define T5 where "T5 = fst (snd c5)"
  define T6 where "T6 = fst (snd c6)"
  have p0: "partly_prepared env p0 t0 ?t" by (simp add: partly_prepared_def)

  have u0: "Confirm ?t = Confirm t0" "Prompt ?t = Prompt t0" "prompt ?t = prompt t0" "Valid ?t = Valid t0" "valid ?t = valid t0" "Unvalidated ?t = Unvalidated t0" "unvalidated ?t = unvalidated t0" "Invalid ?t = Invalid t0" "invalid ?t = invalid t0" "ValidationError ?t = ValidationError t0" "validation ?t = validation t0" "Success ?t = Success t0" "success ?t = success t0"
    by simp_all
  have p1: "partly_prepared env p0 t0 T1"
    unfolding T1_def c1_def by (rule compile_prompt_partly[OF p0 u0(1-3)])
  have u1: "Valid T1 = Valid t0" "valid T1 = valid t0" "Unvalidated T1 = Unvalidated t0" "unvalidated T1 = unvalidated t0" "Invalid T1 = Invalid t0" "invalid T1 = invalid t0" "ValidationError T1 = ValidationError t0" "validation T1 = validation t0" "Success T1 = Success t0" "success T1 = success t0"
    unfolding T1_def c1_def compile_prompt_writes using u0 by simp_all
  have T2: "T2 = (if fst c1 = None then
      T1\<lparr>Valid := (if Valid T1 = [] then builtin_Valid env else Valid T1),
        valid := (case template_Parse env (FuncMap T1) (if Valid T1 = [] then builtin_Valid env else Valid T1) of
                Inl e \<Rightarrow> valid T1 | Inr c \<Rightarrow> Some c)\<rparr>
      else T1)"
    unfolding T2_def c2_def T1_def
    by (simp add: and_then_tpls compile_valid_writes compile_unvalidated_writes
        compile_invalid_writes compile_validation_writes compile_success_writes)
  have p2: "partly_prepared env p0 t0 T2"
    unfolding T2 using p1 compile_valid_partly[OF p1 u1(1,2), unfolded compile_valid_writes] by simp
  have u2: "Unvalidated T2 = Unvalidated t0" "unvalidated T2 = unvalidated t0" "Invalid T2 = Invalid t0" "invalid T2 = invalid t0" "ValidationError T2 = ValidationError t0" "validation T2 = validation t0" "Success T2 = Success t0" "success T2 = success t0"
    unfolding T2 using u1 by simp_all
  have T3: "T3 = (if fst c2 = None then
      T2\<lparr>Unvalidated := (if Unvalidated T2 = [] then builtin_Unvalidated env else Unvalidated T2),
        unvalidated := (case template_Parse env (FuncMap T2) (if Unvalidated T2 = [] then builtin_Unvalidated env else Unvalidated T2) of
                Inl e \<Rightarrow> unvalidated T2 | Inr c \<Rightarrow> Some c)\<rparr>
      else T2)"
    unfolding T3_def c3_def T2_def
    by (simp add: and_then_tpls compile_valid_writes compile_unvalidated_writes
        compile_invalid_writes compile_validation_writes compile_success_writes)
  have p3: "partly_prepared env p0 t0 T3"
    unfolding T3 using p2 compile_unvalidated_partly[OF p2 u2(1,2), unfolded compile_unvalidated_writes] by simp
  have u3: "Invalid T3 = Invalid t0" "invalid T3 = invalid t0" "ValidationError T3 = ValidationError t0" "validation T3 = validation t0" "Success T3 = Success t0" "success T3 = success t0"
    unfolding T3 using u2 by simp_all
  have T4: "T4 = (if fst c3 = None then
      T3\<lparr>Invalid := (if Invalid T3 = [] then builtin_Invalid env else Invalid T3),
        invalid := (case template_Parse env (FuncMap T3) (if Invalid T3 = [] then builtin_Invalid env else Invalid T3) of
                Inl e \<Rightarrow> invalid T3 | Inr c \<Rightarrow> Some c)\<rparr>
      else T3)"
    unfolding T4_def c4_def T3_def
    by (simp add: and_then_tpls compile_valid_writes compile_unvalidated_writes
        compile_invalid_writes compile_validation_writes compile_success_writes)
  have p4: "partly_prepared env p0 t0 T4"
    unfolding T4 using p3 compile_invalid_partly[OF p3 u3(1,2), unfolded compile_invalid_writes] by simp
  have u4: "ValidationError T4 = ValidationError t0" "validation T4 = validation t0" "Success T4 = Success t0" "success T4 = success t0"
    unfolding T4 using u3 by simp_all
  have T5: "T5 = (if fst c4 = None then
      T4\<lparr>ValidationError := (if ValidationError T4 = [] then builtin_ValidationError else ValidationError T4),
        validation := (case template_Parse env (FuncMap T4) (if ValidationError T4 = [] then builtin_ValidationError else ValidationError T4) of
                Inl e \<Rightarrow> validation T4 | Inr c \<Rightarrow> Some c)\<rparr>
      else T4)"
    unfolding T5_def c5_def T4_def
    by (simp add: and_then_tpls compile_valid_writes compile_unvalidated_writes
        compile_invalid_writes compile_validation_writes compile_success_writes)
  have p5: "partly_prepared env p0 t0 T5"
    unfolding T5 using p4 compile_validation_partly[OF p4 u4(1,2), unfolded compile_validation_writes] by simp
  have u5: "Success T5 = Success t0" "success T5 = success t0"
    unfolding T5 using u4 by simp_all
  have T6: "T6 = (if fst c5 = None then
      T5\<lparr>Success := (if Success T5 = [] then builtin_Success env else Success T5),
        success := (case template_Parse env (FuncMap T5) (if Success T5 = [] then builtin_Success env else Success T5) of
                Inl e \<Rightarrow> success T5 | Inr c \<Rightarrow> Some c)\<rparr>
      else T5)"
    unfolding T6_def c6_def T5_def
    by (simp add: and_then_tpls compile_valid_writes compile_unvalidated_writes
        compile_invalid_writes compile_validation_writes compile_success_writes)
  have p6: "partly_prepared env p0 t0 T6"
    unfolding T6 using p5 compile_success_partly[OF p5 u5(1,2), unfolded compile_success_writes] by simp
  from assms have "Templates p = Some T6"
    by (auto simp: prepareTemplates_def early_return_def Let_def T6_def c6_def c5_def c4_def
        c3_def c2_def c1_def split: option.splits prod.splits)
  with p6 that show ?thesis by blast
qed

subsection \<open>The blocking read\<close>

lemma filterInputRune_rune: "fst (snd (filterInputRune env p tpls v r)) = r"
  by (cases "validFn p (Get env (cur v))") (simp_all add: filterInputRune_def Let_def)

lemma filterInputRune_accept:
  "snd (snd (filterInputRune env p tpls v r)) =
     (r = CharEnter env \<or> r = CharCtrlJ env \<longrightarrow> validFn p (Get env (cur v)) = None)"
  by (cases "validFn p (Get env (cur v))") (simp_all add: filterInputRune_def Let_def)

lemma filterInputRune_cur: "cur (fst (filterInputRune env p tpls v r)) = cur v"
  by (cases "validFn p (Get env (cur v))") (simp_all add: filterInputRune_def Let_def)

lemma blocking_read_Keystroke:
  "blocking_read env p tpls v (Keystroke r line pos # rest) =
     (if \<not> snd (snd (filterInputRune env p tpls v r)) then
        (case blocking_read env p tpls (fst (filterInputRune env p tpls v r)) rest of
           (cs, e) \<Rightarrow> (FuncFilterInputRune r # cs, e))
      else if r = CharEnter env \<or> r = CharCtrlJ env then ([FuncFilterInputRune r], None)
      else
        (case blocking_read env p tpls
                (fst (listen env p tpls (fst (filterInputRune env p tpls v r)) line pos r)) rest of
           (cs, e) \<Rightarrow> (FuncFilterInputRune r # Listener line pos r # cs, e)))"
  using filterInputRune_rune[of env p tpls v r]
  by (cases "filterInputRune env p tpls v r") (simp del: filterInputRune_rune)

text \<open>The read completes only on a value that the validator accepts.\<close>

lemma completed_read_is_valid:
  "blocking_read env p tpls v ins = (cs, None) \<Longrightarrow>
   validFn p (Get env (cur (run_hooks env p tpls v cs))) = None"
proof (induction ins arbitrary: v cs)
  case Nil
  then show ?case by simp
next
  case (Cons i ins)
  show ?case
  proof (cases i)
    case InterruptSignal
    with Cons.prems show ?thesis by simp
  next
    case (Keystroke r line pos)
    let ?v1 = "fst (filterInputRune env p tpls v r)"
    show ?thesis
    proof (cases "snd (snd (filterInputRune env p tpls v r))")
      case False
      obtain cs' e' where b: "blocking_read env p tpls ?v1 ins = (cs', e')"
        by (cases "blocking_read env p tpls ?v1 ins")
      with Cons.prems Keystroke False have "cs = FuncFilterInputRune r # cs'" "e' = None"
        by (simp_all add: blocking_read_Keystroke del: blocking_read.simps)
      with Cons.IH[of ?v1 cs'] b show ?thesis by simp
    next
      case True
      show ?thesis
      proof (cases "r = CharEnter env \<or> r = CharCtrlJ env")
        case enter: True
        with Cons.prems Keystroke True have cs: "cs = [FuncFilterInputRune r]"
          by (simp add: blocking_read_Keystroke del: blocking_read.simps)
        from True enter have "validFn p (Get env (cur v)) = None"
          by (simp add: filterInputRune_accept)
        with cs show ?thesis by (simp add: filterInputRune_cur)
      next
        case other: False
        let ?v2 = "fst (listen env p tpls ?v1 line pos r)"
        obtain cs' e' where b: "blocking_read env p tpls ?v2 ins = (cs', e')"
          by (cases "blocking_read env p tpls ?v2 ins")
        with Cons.prems Keystroke True other
        have "cs = FuncFilterInputRune r # Listener line pos r # cs'" "e' = None"
          by (simp_all add: blocking_read_Keystroke del: blocking_read.simps)
        with Cons.IH[of ?v2 cs'] b show ?thesis by simp
      qed
    qed
  qed
qed

text \<open>An interactive run returns without an error only a value that the validator accepts.\<close>

lemma submitted_value_is_valid:
  assumes "fst (Run env (interactive env p0 ins) p0) = Returned a None"
  shows "validFn p0 a = None"
proof -
  obtain r p tr where pt: "prepareTemplates env p0 = (r, p, tr)"
    by (cases "prepareTemplates env p0")
  let ?eng = "interactive env p0 ins"
  show ?thesis
  proof (cases r)
    case (Some e)
    with pt assms show ?thesis by (simp add: Run_prepare_failed)
  next
    case None
    with pt have ok: "prepareTemplates env p0 = (None, p, tr)" by simp
    obtain tpls where t: "Templates p = Some tpls" by (rule prepareTemplates_ok[OF ok])
    obtain cs e where b: "blocking_read env p tpls (before_ReadLine env p tr) ins = (cs, e)"
      by (cases "blocking_read env p tpls (before_ReadLine env p tr) ins")
    with ok t have eng: "NewFromConfig_err ?eng = None" "hook_calls ?eng = cs" "ReadLine_err ?eng = e"
      by (simp_all add: interactive_def)
    from prepareTemplates_fields[OF ok] have v: "validFn p = validFn p0"
      by (simp add: validFn_def)
    show ?thesis
    proof (cases e)
      case (Some x)
      with assms eng show ?thesis by (simp add: Run_read_failed[OF ok t])
    next
      case None
      with b have "validFn p (Get env (cur (run_hooks env p tpls (before_ReadLine env p tr) cs))) = None"
        by (simp add: completed_read_is_valid)
      moreover from assms eng None
      have "a = Get env (cur (run_hooks env p tpls (before_ReadLine env p tr) cs))"
        by (simp add: Run_completed[OF ok t] ReadLine_def finish_def Let_def split: prod.splits if_splits)
      ultimately show ?thesis using v by simp
    qed
  qed
qed

subsection \<open>Claims\<close>

text \<open>
  C1. When Enter or Ctrl-J reaches the key filter, the validator is called once, on the
  cursor's current value, whatever the lazy-validation flag. If it returns an error the
  filter sets the prompt to the validation-error template rendered with that error and
  rejects the key, and the engine's read does not complete: it goes on with the next
  input. If it returns none the filter accepts the key and the read completes without an
  error. So an interactive run returns without an error only a value the validator
  accepts.
\<close>

theorem enter_runs_validator:
  assumes "r = CharEnter env \<or> r = CharCtrlJ env"
  shows "filterInputRune env p tpls v r =
      (case validFn p (Get env (cur v)) of
         None \<Rightarrow> (v\<lparr>err := None, trace := trace v @ [EvValidate (Get env (cur v))]\<rparr>, r, True)
       | Some x \<Rightarrow>
           (v\<lparr>err := Some x,
              trace := trace v @ [EvValidate (Get env (cur v)),
                                  EvSetPrompt (render env (validation tpls) (OfError x))]\<rparr>,
            r, False))
    \<and> filterInputRune env (p\<lparr>LazyValidation := b\<rparr>) tpls v r = filterInputRune env p tpls v r
    \<and> blocking_read env p tpls v (Keystroke r line pos # rest) =
      (case validFn p (Get env (cur v)) of
         None \<Rightarrow> ([FuncFilterInputRune r], None)
       | Some x \<Rightarrow>
           (case blocking_read env p tpls (fst (filterInputRune env p tpls v r)) rest of
              (cs, e) \<Rightarrow> (FuncFilterInputRune r # cs, e)))
    \<and> (fst (Run env (interactive env p0 ins) p0) = Returned a None \<longrightarrow> validFn p0 a = None)"
proof -
  have 1: "filterInputRune env p tpls v r =
      (case validFn p (Get env (cur v)) of
         None \<Rightarrow> (v\<lparr>err := None, trace := trace v @ [EvValidate (Get env (cur v))]\<rparr>, r, True)
       | Some x \<Rightarrow>
           (v\<lparr>err := Some x,
              trace := trace v @ [EvValidate (Get env (cur v)),
                                  EvSetPrompt (render env (validation tpls) (OfError x))]\<rparr>,
            r, False))"
    using assms by (auto simp: filterInputRune_def Let_def split: option.splits)
  have 2: "filterInputRune env (p\<lparr>LazyValidation := b\<rparr>) tpls v r = filterInputRune env p tpls v r"
    using assms by (auto simp: filterInputRune_def validFn_def Let_def split: option.splits)
  have 3: "blocking_read env p tpls v (Keystroke r line pos # rest) =
      (case validFn p (Get env (cur v)) of
         None \<Rightarrow> ([FuncFilterInputRune r], None)
       | Some x \<Rightarrow>
           (case blocking_read env p tpls (fst (filterInputRune env p tpls v r)) rest of
              (cs, e) \<Rightarrow> (FuncFilterInputRune r # cs, e)))"
    using assms
    by (cases "validFn p (Get env (cur v))")
       (simp_all add: blocking_read_Keystroke filterInputRune_accept del: blocking_read.simps)
  have 4: "fst (Run env (interactive env p0 ins) p0) = Returned a None \<longrightarrow> validFn p0 a = None"
    using submitted_value_is_valid by blast
  from 1 2 3 4 show ?thesis by blast
qed

theorem enter_runs_validator_witness:
  "((13 :: rune) = CharEnter demo_env \<or> (13 :: rune) = CharCtrlJ demo_env) \<and>
   filterInputRune demo_env demo_input demo_compiled
     \<lparr>cur = ''no'', err = None, trace = ([] :: unit event list)\<rparr> 13 =
   (\<lparr>cur = ''no'', err = Some (OtherError ''not ok''),
     trace = [EvValidate ''no'', EvSetPrompt ''E not ok'']\<rparr>, 13, False) \<and>
   blocking_read demo_env demo_input demo_compiled
     \<lparr>cur = ''no'', err = None, trace = ([] :: unit event list)\<rparr> [Keystroke 13 None 0] =
   ([FuncFilterInputRune 13], Some io_EOF) \<and>
   blocking_read demo_env demo_input demo_compiled
     \<lparr>cur = ''ok'', err = None, trace = ([] :: unit event list)\<rparr>
     [Keystroke 13 None 0, Keystroke 110 (Some [110]) 1] =
   ([FuncFilterInputRune 13], None) \<and>
   fst (Run demo_env (interactive demo_env demo_input [Keystroke 13 None 0]) demo_input) =
     Returned [] (Some ErrEOF) \<and>
   fst (Run demo_env
          (interactive demo_env demo_input
             [Keystroke 13 None 0, Keystroke 111 (Some [111]) 1,
              Keystroke 107 (Some [111, 107]) 2, Keystroke 13 (Some [111, 107]) 2])
          demo_input) = Returned ''ok'' None \<and>
   validFn demo_input ''ok'' = None"
proof -
  let ?v = "\<lparr>cur = ''no'', err = None, trace = ([] :: unit event list)\<rparr>"
  let ?w = "\<lparr>cur = ''ok'', err = None, trace = ([] :: unit event list)\<rparr>"
  let ?keys = "[Keystroke 13 None 0, Keystroke 111 (Some [111]) 1,
              Keystroke 107 (Some [111, 107]) 2, Keystroke 13 (Some [111, 107]) 2]"
  have h: "(13 :: rune) = CharEnter demo_env \<or> (13 :: rune) = CharCtrlJ demo_env"
    by (simp add: demo_env_def)
  have g: "Get demo_env ''no'' = ''no''" "Get demo_env ''ok'' = ''ok''" by (simp_all add: demo_env_def)
  have v: "validFn demo_input ''no'' = Some (OtherError ''not ok'')" "validFn demo_input ''ok'' = None"
    by (simp_all add: validFn_def demo_input_def demo_validator_def)
  have r: "render demo_env (validation demo_compiled) (OfError (OtherError ''not ok'')) = ''E not ok''"
    by (simp add: demo_env_def demo_compiled_def demo_Error_def)
  have e1: "fst (Run demo_env (interactive demo_env demo_input [Keystroke 13 None 0]) demo_input) =
     Returned [] (Some ErrEOF)"
    by code_simp
  have e2: "fst (Run demo_env (interactive demo_env demo_input ?keys) demo_input) = Returned ''ok'' None"
    by code_simp
  note a = enter_runs_validator[OF h, of demo_input demo_compiled ?v False None 0 "[]"
      demo_input ?keys "''ok''"]
  note b = enter_runs_validator[OF h, of demo_input demo_compiled ?w False None 0
      "[Keystroke 110 (Some [110]) 1]" demo_input ?keys "''ok''"]
  from a have a1: "filterInputRune demo_env demo_input demo_compiled ?v 13 =
      (\<lparr>cur = ''no'', err = Some (OtherError ''not ok''),
        trace = [EvValidate ''no'', EvSetPrompt ''E not ok'']\<rparr>, 13, False)"
    by (simp add: g v r)
  from a have a3: "blocking_read demo_env demo_input demo_compiled ?v [Keystroke 13 None 0] =
      ([FuncFilterInputRune 13], Some io_EOF)"
    by (simp add: g v del: blocking_read.simps(3))
  from b have b3: "blocking_read demo_env demo_input demo_compiled ?w
       [Keystroke 13 None 0, Keystroke 110 (Some [110]) 1] = ([FuncFilterInputRune 13], None)"
    by (simp add: g v del: blocking_read.simps(3))
  from a e2 have a4: "validFn demo_input ''ok'' = None" by blast
  from h a1 a3 b3 e1 e2 a4 show ?thesis by blast
qed

text \<open>
  C3. With lazy validation, a sequence of hook calls for keys other than Enter leaves
  nothing in the trace but, for each call of the listener, one prompt that starts with
  the unvalidated template rendered with the label, and one refresh: the validator is
  not called and no other template is rendered, whatever the validator is.
\<close>

theorem lazy_renders_unvalidated:
  assumes "LazyValidation p" "list_all (non_Enter env) cs"
  shows "\<exists>echos. length echos = length (filter is_Listener cs) \<and>
      trace (run_hooks env p tpls v cs) =
        trace v @ concat (map (\<lambda>echo. [EvSetPrompt (render env (unvalidated tpls) (OfLabel (Label p)) @ echo),
                                         EvRefresh]) echos)"
  using assms(2)
proof (induction cs arbitrary: v)
  case Nil
  then show ?case by simp
next
  case (Cons c cs)
  let ?U = "render env (unvalidated tpls) (OfLabel (Label p))"
  show ?case
  proof (cases c)
    case (FuncFilterInputRune r)
    with Cons.prems have "fst (filterInputRune env p tpls v r) = v"
      by (simp add: filterInputRune_def)
    with Cons FuncFilterInputRune show ?thesis by simp
  next
    case (Listener input pos key)
    let ?v = "fst (listen env p tpls v input pos key)"
    obtain echo where e: "trace ?v = trace v @ [EvSetPrompt (?U @ echo), EvRefresh]"
      using assms(1) by (cases "Listen env (cur v) input pos key") (simp add: listen_def Let_def)
    from Cons.IH[of ?v] Cons.prems obtain echos where
      "length echos = length (filter is_Listener cs)"
      "trace (run_hooks env p tpls ?v cs) =
         trace ?v @ concat (map (\<lambda>echo. [EvSetPrompt (?U @ echo), EvRefresh]) echos)"
      by auto
    with e Listener show ?thesis by (intro exI[of _ "echo # echos"]) simp
  qed
qed

theorem lazy_renders_unvalidated_witness:
  "LazyValidation (demo_input\<lparr>LazyValidation := True\<rparr>) \<and>
   list_all (non_Enter demo_env) (hook_calls demo_interrupted) \<and>
   validFn (demo_input\<lparr>LazyValidation := True\<rparr>) ''n'' = Some (OtherError ''not ok'') \<and>
   trace (run_hooks demo_env (demo_input\<lparr>LazyValidation := True\<rparr>) demo_compiled
            \<lparr>cur = ''no'', err = None, trace = ([] :: unit event list)\<rparr> (hook_calls demo_interrupted)) =
     [EvSetPrompt ''U Wordn'', EvRefresh] \<and>
   (\<exists>echos. length echos = length (filter is_Listener (hook_calls demo_interrupted)) \<and>
      trace (run_hooks demo_env (demo_input\<lparr>LazyValidation := True\<rparr>) demo_compiled
               \<lparr>cur = ''no'', err = None, trace = ([] :: unit event list)\<rparr> (hook_calls demo_interrupted)) =
        trace \<lparr>cur = ''no'', err = None, trace = ([] :: unit event list)\<rparr> @
        concat (map (\<lambda>echo. [EvSetPrompt (render demo_env (unvalidated demo_compiled)
                                  (OfLabel (Label (demo_input\<lparr>LazyValidation := True\<rparr>))) @ echo),
                                EvRefresh]) echos))"
proof -
  have h1: "LazyValidation (demo_input\<lparr>LazyValidation := True\<rparr>)" by simp
  have h2: "list_all (non_Enter demo_env) (hook_calls demo_interrupted)"
    by (simp add: demo_interrupted_def demo_env_def)
  have v: "validFn (demo_input\<lparr>LazyValidation := True\<rparr>) ''n'' = Some (OtherError ''not ok'')"
    by (simp add: validFn_def demo_input_def demo_validator_def)
  have t: "trace (run_hooks demo_env (demo_input\<lparr>LazyValidation := True\<rparr>) demo_compiled
            \<lparr>cur = ''no'', err = None, trace = ([] :: unit event list)\<rparr> (hook_calls demo_interrupted)) =
     [EvSetPrompt ''U Wordn'', EvRefresh]"
    by code_simp
  from lazy_renders_unvalidated[OF h1 h2, of demo_compiled "\<lparr>cur = ''no'', err = None, trace = []\<rparr>"]
  show ?thesis using h1 h2 v t by blast
qed

text \<open>
  C4. With eager validation the listener calls the validator on the cursor's value after
  the key, and the prompt it sets starts with the invalid template when the validator
  returns an error, with the template of the field \<open>prompt\<close> (the confirm template of a
  confirmation prompt) when it returns none and the prompt is a confirmation, and with
  the valid template otherwise.
\<close>

theorem eager_listen_selects_template:
  assumes "\<not> LazyValidation p"
  shows "listen env p tpls v input pos key =
    (let c = fst (Listen env (cur v) input pos key);
         keepOn = snd (snd (snd (Listen env (cur v) input pos key)));
         chosen = (if validFn p (Get env c) \<noteq> None then invalid tpls
                   else if IsConfirm p then prompt tpls
                   else valid tpls);
         echo = (if Mask p \<noteq> 0 then FormatMask env c (Mask p) else Format env c)
     in (v\<lparr>cur := c,
           trace := trace v @ [EvValidate (Get env c),
                               EvSetPrompt (render env chosen (OfLabel (Label p)) @ echo),
                               EvRefresh]\<rparr>,
         None, 0, keepOn))"
  using assms
  by (cases "Listen env (cur v) input pos key") (simp add: listen_def Let_def)


theorem eager_listen_selects_template_witness:
  "\<not> LazyValidation demo_input \<and>
   listen demo_env demo_input demo_compiled
     \<lparr>cur = ''no'', err = None, trace = ([] :: unit event list)\<rparr> (Some [111, 107]) 2 107 =
   (\<lparr>cur = ''ok'', err = None, trace = [EvValidate ''ok'', EvSetPrompt ''V Wordok'', EvRefresh]\<rparr>,
    None, 0, True) \<and>
   listen demo_env demo_input demo_compiled
     \<lparr>cur = ''no'', err = None, trace = ([] :: unit event list)\<rparr> (Some [111]) 1 111 =
   (\<lparr>cur = ''o'', err = None, trace = [EvValidate ''o'', EvSetPrompt ''I Wordo'', EvRefresh]\<rparr>,
    None, 0, True)"
proof -
  have h: "\<not> LazyValidation demo_input" by (simp add: demo_input_def)
  have l: "Listen demo_env ''no'' (Some [111, 107]) 2 107 = (''ok'', Some [111, 107], 2, True)"
    "Listen demo_env ''no'' (Some [111]) 1 111 = (''o'', Some [111], 1, True)"
    by code_simp+
  have g: "Get demo_env ''ok'' = ''ok''" "Format demo_env ''ok'' = ''ok''"
    "Get demo_env ''o'' = ''o''" "Format demo_env ''o'' = ''o''"
    by (simp_all add: demo_env_def)
  have v: "validFn demo_input ''ok'' = None" "validFn demo_input ''o'' = Some (OtherError ''not ok'')"
    by (simp_all add: validFn_def demo_input_def demo_validator_def)
  have r: "render demo_env (valid demo_compiled) (OfLabel (Label demo_input)) = ''V Word''"
    "render demo_env (invalid demo_compiled) (OfLabel (Label demo_input)) = ''I Word''"
    by (simp_all add: demo_env_def demo_compiled_def demo_input_def)
  have m: "Mask demo_input = 0" "\<not> IsConfirm demo_input" by (simp_all add: demo_input_def)
  from eager_listen_selects_template[OF h, of demo_env demo_compiled
      "\<lparr>cur = ''no'', err = None, trace = []\<rparr>" "Some [111, 107]" 2 107]
    eager_listen_selects_template[OF h, of demo_env demo_compiled
      "\<lparr>cur = ''no'', err = None, trace = []\<rparr>" "Some [111]" 1 111]
  show ?thesis using h by (simp add: l g v r m Let_def)
qed

subsection \<open>The concrete runs\<close>

lemma demo_confirm_prepared: "fst (prepareTemplates demo_env demo_confirm) = None"
  by code_simp

lemma prepareTemplates_triple:
  "prepareTemplates env p0 =
     (fst (prepareTemplates env p0), fst (snd (prepareTemplates env p0)),
      snd (snd (prepareTemplates env p0)))"
  by simp

text \<open>
  C2. A confirmation run whose read ends without an error returns no error exactly when
  (the lower-cased default is \<^verbatim>\<open>y\<close> and the lower-cased answer is not \<^verbatim>\<open>n\<close>) or
  (the lower-cased default is not \<^verbatim>\<open>y\<close> and the lower-cased answer is \<^verbatim>\<open>y\<close>);
  otherwise it returns \<^verbatim>\<open>ErrAbort\<close>, and the line it writes is the invalid template
  rendered with the label instead of the success template followed by the echo.
\<close>

theorem confirm_acceptance_rule:
  assumes "prepareTemplates env p0 = (None, p, tr)" "Templates p = Some tpls"
    "NewFromConfig_err eng = None" "ReadLine_err eng = None" "IsConfirm p0"
  shows "let v = ReadLine env eng p tpls (before_ReadLine env p tr);
             A = Get env (cur v);
             D = Default p0;
             accept = ((ToLower env D = ''y'' \<and> ToLower env A \<noteq> ''n'') \<or>
                       (ToLower env D \<noteq> ''y'' \<and> ToLower env A = ''y''));
             echo = (if Mask p0 \<noteq> 0 then GetMask env (cur v) (Mask p0) else A)
         in Run env eng p0 =
              (Returned A (if accept then None else Some ErrAbort), p,
               trace v @
               [EvWrite (if accept then render env (success tpls) (OfLabel (Label p0)) @ echo
                         else render env (invalid tpls) (OfLabel (Label p0))),
                EvWrite [CHR 0x0A], EvWrite (showCursor env), EvClose])"
proof -
  let ?v = "ReadLine env eng p tpls (before_ReadLine env p tr)"
  from assms(1) have f: "IsConfirm p = IsConfirm p0" "Default p = Default p0" "Mask p = Mask p0"
    "Label p = Label p0"
    using prepareTemplates_fields by blast+
  have e: "err ?v = None" by (simp add: ReadLine_def assms(4))
  have yn: "ToLower env (Get env (cur ?v)) = ''y'' \<Longrightarrow> ToLower env (Get env (cur ?v)) \<noteq> ''n''"
    by simp
  show ?thesis
    unfolding Run_completed[OF assms(1-4)] Let_def
    using assms(5) f e yn
    by (cases "Mask p0 = 0") (auto simp: finish_def Let_def)
qed

theorem confirm_acceptance_rule_witness:
  "fst (prepareTemplates demo_env demo_confirm) = None \<and>
   NewFromConfig_err demo_types_n = None \<and> ReadLine_err demo_types_n = None \<and>
   IsConfirm demo_confirm \<and>
   fst (Run demo_env demo_types_n demo_confirm) = Returned ''n'' (Some ErrAbort) \<and>
   fst (Run demo_env (demo_types_n\<lparr>hook_calls := [FuncFilterInputRune 13]\<rparr>) demo_confirm) =
     Returned [] None"
proof -
  let ?P = "fst (snd (prepareTemplates demo_env demo_confirm))"
  let ?TR = "snd (snd (prepareTemplates demo_env demo_confirm))"
  let ?E = "demo_types_n\<lparr>hook_calls := [FuncFilterInputRune 13]\<rparr>"
  have a1: "prepareTemplates demo_env demo_confirm = (None, ?P, ?TR)"
    using demo_confirm_prepared prepareTemplates_triple[of demo_env demo_confirm] by simp
  obtain T where a2: "Templates ?P = Some T" by (rule prepareTemplates_ok[OF a1])
  then have T: "T = the (Templates ?P)" by simp
  have a3: "NewFromConfig_err demo_types_n = None" "NewFromConfig_err ?E = None"
    by (simp_all add: demo_types_n_def)
  have a4: "ReadLine_err demo_types_n = None" "ReadLine_err ?E = None"
    by (simp_all add: demo_types_n_def)
  have a5: "IsConfirm demo_confirm" by (simp add: demo_confirm_def)
  have d: "ToLower demo_env (Default demo_confirm) = ''y''" "ToLower demo_env ''n'' = ''n''"
    "ToLower demo_env [] = []"
    by code_simp+
  have g1: "ToLower demo_env (Get demo_env (cur (ReadLine demo_env demo_types_n ?P (the (Templates ?P))
              (before_ReadLine demo_env ?P ?TR)))) = ''n''"
    "Get demo_env (cur (ReadLine demo_env demo_types_n ?P (the (Templates ?P))
              (before_ReadLine demo_env ?P ?TR))) = ''n''"
    by code_simp+
  have g2: "ToLower demo_env (Get demo_env (cur (ReadLine demo_env ?E ?P (the (Templates ?P))
              (before_ReadLine demo_env ?P ?TR)))) = []"
    "Get demo_env (cur (ReadLine demo_env ?E ?P (the (Templates ?P))
              (before_ReadLine demo_env ?P ?TR))) = []"
    by code_simp+
  from confirm_acceptance_rule[OF a1 a2 a3(1) a4(1) a5]
  have r1: "fst (Run demo_env demo_types_n demo_confirm) = Returned ''n'' (Some ErrAbort)"
    by (simp add: Let_def T d g1)
  from confirm_acceptance_rule[OF a1 a2 a3(2) a4(2) a5]
  have r2: "fst (Run demo_env ?E demo_confirm) = Returned [] None"
    by (simp add: Let_def T d g2)
  from r1 r2 demo_confirm_prepared a3 a4 a5 show ?thesis by simp
qed

text \<open>
  A confirmation run that resolves to abort returns \<^verbatim>\<open>ErrAbort\<close> together with the
  cursor's value, that is the answer as typed.
\<close>

lemma confirm_abort_returns_answer:
  assumes "prepareTemplates env p0 = (None, p, tr)" "Templates p = Some tpls"
    "NewFromConfig_err eng = None" "ReadLine_err eng = None" "IsConfirm p0"
    "A = Get env (cur (ReadLine env eng p tpls (before_ReadLine env p tr)))"
    "(ToLower env (Default p0) = ''y'' \<and> ToLower env A = ''n'') \<or>
     (ToLower env (Default p0) \<noteq> ''y'' \<and> ToLower env A \<noteq> ''y'')"
  shows "fst (Run env eng p0) = Returned A (Some ErrAbort)"
proof -
  from assms(1) have f: "IsConfirm p = IsConfirm p0" "Default p = Default p0"
    using prepareTemplates_fields by blast+
  show ?thesis
    unfolding Run_completed[OF assms(1-4)]
    using assms(5-7) f by (auto simp: finish_def Let_def split: prod.splits)
qed

text \<open>
  C5 fails on the code. Every other path of \<^verbatim>\<open>Run\<close> that returns an error returns the
  empty string with it (lines 128, 142 and 218, the last one whatever the cursor holds),
  and the abort branch already keeps the answer out of the written line; but the abort
  shares the \<^verbatim>\<open>return cur.Get(), err\<close> of line 244 with the success path. With
  default \<^verbatim>\<open>y\<close> and the typed answer \<^verbatim>\<open>n\<close> the run returns \<^verbatim>\<open>n\<close>, not the
  empty string, beside \<^verbatim>\<open>ErrAbort\<close>.
\<close>

theorem aborted_run_returns_typed_answer:
  "IsConfirm demo_confirm \<and>
   fst (Run demo_env demo_types_n demo_confirm) = Returned ''n'' (Some ErrAbort) \<and>
   fst (Run demo_env demo_types_n demo_confirm) \<noteq> Returned [] (Some ErrAbort)"
  by code_simp

text \<open>
  C6. When \<^verbatim>\<open>ReadLine\<close> ends with an error, \<^verbatim>\<open>Run\<close> returns the empty string
  whatever the cursor holds; with the engine's interrupt error it returns
  \<^verbatim>\<open>ErrInterrupt\<close>, and with \<^verbatim>\<open>io.EOF\<close> it returns \<^verbatim>\<open>ErrEOF\<close>. (The text of
  \<^verbatim>\<open>ErrEOF\<close> is declared outside \<^verbatim>\<open>prompt.go\<close>; the comparison of line 215 leaves
  \<^verbatim>\<open>ErrEOF\<close> alone as long as that text is not \<^verbatim>\<open>Interrupt\<close>.)
\<close>

theorem read_error_results:
  assumes "prepareTemplates env p0 = (None, p, tr)" "NewFromConfig_err eng = None"
    "ReadLine_err eng = Some e"
  shows "(e = readline_ErrInterrupt \<longrightarrow> fst (Run env eng p0) = Returned [] (Some ErrInterrupt)) \<and>
    (e = io_EOF \<and> Error env ErrEOF \<noteq> ''Interrupt'' \<longrightarrow>
       fst (Run env eng p0) = Returned [] (Some ErrEOF)) \<and>
    (\<exists>e'. fst (Run env eng p0) = Returned [] (Some e'))"
proof -
  obtain tpls where t: "Templates p = Some tpls" by (rule prepareTemplates_ok[OF assms(1)])
  show ?thesis
    unfolding Run_read_failed[OF assms(1) t assms(2,3)]
    by (simp add: ReadLine_error_def)
qed

theorem read_error_results_witness:
  "fst (prepareTemplates demo_env demo_confirm) = None \<and>
   NewFromConfig_err demo_interrupted = None \<and>
   ReadLine_err demo_interrupted = Some readline_ErrInterrupt \<and>
   fst (Run demo_env demo_interrupted demo_confirm) = Returned [] (Some ErrInterrupt) \<and>
   NewFromConfig_err demo_eof = None \<and> ReadLine_err demo_eof = Some io_EOF \<and>
   Error demo_env ErrEOF \<noteq> ''Interrupt'' \<and>
   fst (Run demo_env demo_eof demo_confirm) = Returned [] (Some ErrEOF)"
proof -
  let ?P = "fst (snd (prepareTemplates demo_env demo_confirm))"
  let ?TR = "snd (snd (prepareTemplates demo_env demo_confirm))"
  have a1: "prepareTemplates demo_env demo_confirm = (None, ?P, ?TR)"
    using demo_confirm_prepared prepareTemplates_triple[of demo_env demo_confirm] by simp
  have i: "NewFromConfig_err demo_interrupted = None"
    "ReadLine_err demo_interrupted = Some readline_ErrInterrupt"
    by (simp_all add: demo_interrupted_def)
  have e: "NewFromConfig_err demo_eof = None" "ReadLine_err demo_eof = Some io_EOF"
    by (simp_all add: demo_eof_def)
  have x: "Error demo_env ErrEOF \<noteq> ''Interrupt''"
    by (simp add: demo_env_def demo_Error_def)
  from read_error_results[OF a1 i] read_error_results[OF a1 e] x
  show ?thesis using demo_confirm_prepared i e by simp
qed

text \<open>
  C7. \<^verbatim>\<open>Run\<close> compiles the templates first. If a compilation fails, \<^verbatim>\<open>Run\<close>
  returns the empty string and that error, and its events are compilations only, the
  last of them the one that failed: no engine was built and nothing was written. If none
  fails, the first six events are the six compilations, the six compiled templates are
  set, and the construction of the engine is the seventh event.
\<close>

theorem templates_compiled_first:
  "case prepareTemplates env p0 of
     (Some e, p, tr) \<Rightarrow>
       Run env eng p0 = (Returned [] (Some e), p, tr) \<and>
       list_all is_EvParse tr \<and> reports_parse_error env e tr
   | (None, p, tr) \<Rightarrow>
       length tr = 6 \<and> list_all is_EvParse tr \<and>
       (\<exists>tpls. Templates p = Some tpls \<and> prompt tpls \<noteq> None \<and> valid tpls \<noteq> None \<and>
          invalid tpls \<noteq> None \<and> validation tpls \<noteq> None \<and> success tpls \<noteq> None \<and>
          unvalidated tpls \<noteq> None) \<and>
       (\<exists>rest. snd (snd (Run env eng p0)) = tr @ EvNewFromConfig (config p) # rest)"
proof -
  obtain r p tr where pt: "prepareTemplates env p0 = (r, p, tr)" by (cases "prepareTemplates env p0")
  have ev: "list_all is_EvParse tr"
    using prepareTemplates_events[of env p0] pt by simp
  show ?thesis
  proof (cases r)
    case (Some e)
    with pt ev show ?thesis
      by (simp add: Run_prepare_failed prepareTemplates_reports)
  next
    case None
    with pt have ok: "prepareTemplates env p0 = (None, p, tr)" by simp
    from ok have six: "length tr = 6" by (rule prepareTemplates_ok) simp
    from ok have set: "\<exists>tpls. Templates p = Some tpls \<and> prompt tpls \<noteq> None \<and> valid tpls \<noteq> None \<and>
          invalid tpls \<noteq> None \<and> validation tpls \<noteq> None \<and> success tpls \<noteq> None \<and>
          unvalidated tpls \<noteq> None"
      by (rule prepareTemplates_ok) simp
    from Run_trace_after_prepare[OF ok, of eng] six set ev ok show ?thesis by simp
  qed
qed

theorem templates_compiled_first_witness:
  "Run demo_env demo_types_n demo_malformed =
     (Returned [] (Some (OtherError ''unclosed action'')),
      fst (snd (prepareTemplates demo_env demo_malformed)),
      snd (snd (prepareTemplates demo_env demo_malformed))) \<and>
   snd (snd (prepareTemplates demo_env demo_malformed)) =
     [EvParse ''? {{ . | bold }}: '', EvParse ''V '', EvParse ''U '', EvParse ''{{'']"
proof -
  have f: "fst (prepareTemplates demo_env demo_malformed) = Some (OtherError ''unclosed action'')"
    by code_simp
  have t: "snd (snd (prepareTemplates demo_env demo_malformed)) =
     ([EvParse ''? {{ . | bold }}: '', EvParse ''V '', EvParse ''U '', EvParse ''{{''] :: unit event list)"
    by code_simp
  have c: "prepareTemplates demo_env demo_malformed =
    (Some (OtherError ''unclosed action''), fst (snd (prepareTemplates demo_env demo_malformed)),
     snd (snd (prepareTemplates demo_env demo_malformed)))"
    using f prepareTemplates_triple[of demo_env demo_malformed] by simp
  from templates_compiled_first[where env = demo_env and ?p0.0 = demo_malformed and eng = demo_types_n]
  have "Run demo_env demo_types_n demo_malformed =
     (Returned [] (Some (OtherError ''unclosed action'')),
      fst (snd (prepareTemplates demo_env demo_malformed)),
      snd (snd (prepareTemplates demo_env demo_malformed)))"
    by (subst (asm) c) (simp add: case_prod_beta)
  with t show ?thesis by simp
qed

text \<open>
  A run whose read fails has built the engine and never closes it.
\<close>

lemma read_error_never_closes:
  assumes "prepareTemplates env p0 = (None, p, tr)" "NewFromConfig_err eng = None"
    "ReadLine_err eng = Some e"
  shows "EvNewFromConfig (config p) \<in> set (snd (snd (Run env eng p0))) \<and>
    EvClose \<notin> set (snd (snd (Run env eng p0)))"
proof -
  obtain tpls where t: "Templates p = Some tpls" by (rule prepareTemplates_ok[OF assms(1)])
  obtain evs where evs:
    "trace (run_hooks env p tpls (before_ReadLine env p tr) (hook_calls eng)) =
       trace (before_ReadLine env p tr) @ evs" "EvClose \<notin> set evs"
    by (rule run_hooks_trace)
  have "list_all is_EvParse tr" using prepareTemplates_events[of env p0] assms(1) by simp
  then have "EvClose \<notin> set tr" by (auto simp: list_all_iff)
  with evs show ?thesis
    unfolding Run_read_failed[OF assms(1) t assms(2,3)]
    by (simp add: before_ReadLine_def)
qed

text \<open>
  C8 fails on the code: when \<^verbatim>\<open>ReadLine\<close> ends with an error, \<^verbatim>\<open>Run\<close> returns at
  line 218 without \<^verbatim>\<open>rl.Close()\<close> (and without showing the cursor again), although
  the engine was built. Here the user types \<^verbatim>\<open>n\<close> and interrupts; the run that ends
  with Enter does close the engine.
\<close>

theorem interrupted_run_leaves_engine_open:
  "fst (Run demo_env demo_interrupted demo_confirm) = Returned [] (Some ErrInterrupt) \<and>
   EvNewFromConfig (config demo_confirm) \<in> set (snd (snd (Run demo_env demo_interrupted demo_confirm))) \<and>
   EvClose \<notin> set (snd (snd (Run demo_env demo_interrupted demo_confirm))) \<and>
   EvClose \<in> set (snd (snd (Run demo_env demo_types_n demo_confirm)))"
  by code_simp

lemma prepareTemplates_failed_nil:
  assumes "prepareTemplates env p0 = (Some e, p, tr)" "Templates p0 = None"
  shows "p = p0"
  using assms
  by (auto simp: prepareTemplates_def early_return_def Let_def split: prod.splits option.splits)

text \<open>
  C9, as the code has it. \<^verbatim>\<open>Run\<close> leaves every field of the prompt but
  \<open>Templates\<close> as it was, and writes \<open>Templates\<close> through \<^verbatim>\<open>prepareTemplates\<close>.
  When all six templates compile, \<open>Templates\<close> holds the prepared set: made from the
  set that was there, or from the zero value when \<open>Templates\<close> was nil, with a nil
  function map filled, the built-in sources in place of the empty ones of the prompt's
  mode, and the six compiled templates. When a compilation fails, a nil \<open>Templates\<close>
  stays nil, and a set that was there has its nil function map filled and each source and
  compiled template either as it was or written as above. In a set that was there, a
  source that was not empty and a function map that was not nil never change.
\<close>

theorem Run_writes_only_Templates:
  "case Run env eng p0 of
     (out, p, tr) \<Rightarrow>
       Label p = Label p0 \<and> Default p = Default p0 \<and> AllowEdit p = AllowEdit p0 \<and>
       Validate p = Validate p0 \<and> Mask p = Mask p0 \<and> LazyValidation p = LazyValidation p0 \<and>
       IsConfirm p = IsConfirm p0 \<and> IsVimMode p = IsVimMode p0 \<and> Pointer p = Pointer p0 \<and>
       Stdin p = Stdin p0 \<and> Stdout p = Stdout p0 \<and>
       (case (fst (prepareTemplates env p0), Templates p0) of
          (None, None) \<Rightarrow> (\<exists>t. Templates p = Some t \<and> prepared env p0 new_PromptTemplates t)
        | (None, Some t0) \<Rightarrow>
            (\<exists>t. Templates p = Some t \<and> prepared env p0 t0 t \<and> sources_kept t0 t)
        | (Some e, None) \<Rightarrow> Templates p = None
        | (Some e, Some t0) \<Rightarrow>
            (\<exists>t. Templates p = Some t \<and> partly_prepared env p0 t0 t \<and> sources_kept t0 t))"
proof -
  obtain out p tr where r: "Run env eng p0 = (out, p, tr)" by (cases "Run env eng p0")
  obtain x tr0 where pt: "prepareTemplates env p0 = (x, p, tr0)"
    using Run_prompt[of env eng p0] r by (cases "prepareTemplates env p0") simp
  have t: "case (x, Templates p0) of
          (None, None) \<Rightarrow> (\<exists>t. Templates p = Some t \<and> prepared env p0 new_PromptTemplates t)
        | (None, Some t0) \<Rightarrow>
            (\<exists>t. Templates p = Some t \<and> prepared env p0 t0 t \<and> sources_kept t0 t)
        | (Some e, None) \<Rightarrow> Templates p = None
        | (Some e, Some t0) \<Rightarrow>
            (\<exists>t. Templates p = Some t \<and> partly_prepared env p0 t0 t \<and> sources_kept t0 t)"
  proof (cases x)
    case None
    with pt have ok: "prepareTemplates env p0 = (None, p, tr0)" by simp
    obtain t where t: "Templates p = Some t"
      "prepared env p0 (case Templates p0 of None \<Rightarrow> new_PromptTemplates | Some t \<Rightarrow> t) t"
      by (rule prepareTemplates_ok[OF ok])
    show ?thesis
    proof (cases "Templates p0")
      case nil: None
      with t None show ?thesis by simp
    next
      case (Some t0)
      obtain t' where "Templates p = Some t'" "sources_kept t0 t'"
        by (rule prepareTemplates_kept[OF ok Some])
      with t None Some show ?thesis by simp
    qed
  next
    case (Some e)
    show ?thesis
    proof (cases "Templates p0")
      case None
      with pt Some have "p = p0" by (simp add: prepareTemplates_failed_nil)
      with None Some show ?thesis by simp
    next
      case t0: (Some t0)
      obtain t where t: "Templates p = Some t" "partly_prepared env p0 t0 t"
        by (rule prepareTemplates_partly[OF pt t0])
      obtain t' where "Templates p = Some t'" "sources_kept t0 t'"
        by (rule prepareTemplates_kept[OF pt t0])
      with t Some t0 show ?thesis by simp
    qed
  qed
  from prepareTemplates_fields[OF pt] t r pt show ?thesis by simp
qed

theorem Run_writes_only_Templates_witness:
  "Label (fst (snd (Run demo_env demo_types_n demo_input))) = ''Word'' \<and>
   Default (fst (snd (Run demo_env demo_types_n demo_input))) = ''no'' \<and>
   Valid (the (Templates (fst (snd (Run demo_env demo_types_n demo_input))))) = ''V '' \<and>
   Prompt (the (Templates (fst (snd (Run demo_env demo_types_n demo_input))))) =
     ''? {{ . | bold }}: '' \<and>
   valid (the (Templates (fst (snd (Run demo_env demo_types_n demo_input))))) = Some ''V ''"
proof -
  let ?p = "fst (snd (Run demo_env demo_types_n demo_input))"
  have x: "fst (prepareTemplates demo_env demo_input) = None" by code_simp
  have t0: "Templates demo_input = Some demo_templates" by (simp add: demo_input_def)
  have s: "Valid demo_templates = ''V ''" "Prompt demo_templates = []"
    by (simp_all add: demo_templates_def new_PromptTemplates_def)
  have l: "Label demo_input = ''Word''" "Default demo_input = ''no''" "\<not> IsConfirm demo_input"
    by (simp_all add: demo_input_def)
  have b: "builtin_Prompt demo_env = ''? {{ . | bold }}: ''"
    by (simp add: builtin_Prompt_def demo_env_def)
  have c: "template_Parse demo_env fm ''V '' = Inr ''V ''" for fm
    by (simp add: demo_env_def)
  from Run_writes_only_Templates[where env = demo_env and eng = demo_types_n and ?p0.0 = demo_input]
  have f: "Label ?p = Label demo_input \<and> Default ?p = Default demo_input" and
    "\<exists>t. Templates ?p = Some t \<and> prepared demo_env demo_input demo_templates t \<and>
       sources_kept demo_templates t"
    by (simp_all add: case_prod_beta x t0)
  then obtain t where t: "Templates ?p = Some t" "prepared demo_env demo_input demo_templates t"
    by blast
  from t(2) have
    p1: "Valid t = (if Valid demo_templates = [] then builtin_Valid demo_env else Valid demo_templates)"
    and p2: "Prompt t = (if \<not> IsConfirm demo_input \<and> Prompt demo_templates = []
                         then builtin_Prompt demo_env else Prompt demo_templates)"
    and p3: "\<exists>c. valid t = Some c \<and> template_Parse demo_env (FuncMap t) (Valid t) = Inr c"
    unfolding prepared_def by blast+
  from p1 p2 have q: "Valid t = ''V ''" "Prompt t = ''? {{ . | bold }}: ''"
    by (simp_all add: s l b)
  from p3 q(1) c have "valid t = Some ''V ''" by auto
  note q = q this
  from q f t(1) l show ?thesis by simp
qed

text \<open>
  C9 as stated fails. A prompt with no templates has \<open>Templates\<close> set when \<^verbatim>\<open>Run\<close>
  returns, and in a prompt that came with templates the empty source of the prompt
  template has become the built-in one.
\<close>

theorem configuration_immutable_counterexample:
  "Templates demo_confirm = None \<and>
   Templates (fst (snd (Run demo_env demo_types_n demo_confirm))) \<noteq> None \<and>
   map_option Prompt (Templates demo_input) = Some [] \<and>
   map_option Prompt (Templates (fst (snd (Run demo_env demo_types_n demo_input)))) =
     Some ''? {{ . | bold }}: ''"
  by code_simp

text \<open>
  C10. In a confirmation prompt the cursor starts from the empty string with
  erase-on-edit off, whatever the default text. The default text is read only through
  the test "its lower-cased form is \<^verbatim>\<open>y\<close>": two confirmation prompts that differ in
  the default text but agree on that test run alike (same results, same events, same
  templates). The built-in confirm source carries the hint \<^verbatim>\<open>[Y/n]\<close> when the test
  holds and \<^verbatim>\<open>[y/N]\<close> when it does not.
\<close>

theorem confirm_default_text_role:
  assumes "IsConfirm p0" "prepareTemplates env p0 = (r, p, tr)"
  shows \<open>cur (before_ReadLine env p tr) = NewCursor env [] (Pointer p0) False \<and>
    ((ToLower env d = ''y'') = (ToLower env (Default p0) = ''y'') \<longrightarrow>
       Run env eng (p0\<lparr>Default := d\<rparr>) =
         (case Run env eng p0 of (out, p', tr') \<Rightarrow> (out, p'\<lparr>Default := d\<rparr>, tr'))) \<and>
    (\<forall>t. Templates p = Some t \<and>
          (case Templates p0 of None \<Rightarrow> True | Some t0 \<Rightarrow> Confirm t0 = []) \<longrightarrow>
       Confirm t =
         ''{{ "'' @ IconInitial env @ ''" | bold }} {{ . | bold }}? {{ "['' @
         (if ToLower env (Default p0) = ''y'' then ''Y/n'' else ''y/N'') @ '']" | faint }} '')\<close>
proof -
  from assms(2) have f: "IsConfirm p = IsConfirm p0" "Pointer p = Pointer p0"
    using prepareTemplates_fields by blast+
  with assms(1) have c: "cur (before_ReadLine env p tr) = NewCursor env [] (Pointer p0) False"
    by (simp add: before_ReadLine_def initial_cursor_def initial_input_def eraseDefault_def)
  have h: "Confirm t = builtin_Confirm env p0"
    if "Templates p = Some t" "case Templates p0 of None \<Rightarrow> True | Some t0 \<Rightarrow> Confirm t0 = []" for t
    using prepareTemplates_Confirm[OF assms(2,1) that(1)] that(2) by (simp split: option.splits)
  from c h Run_Default[OF assms(1), of env d eng] show ?thesis
    by (simp add: builtin_Confirm_def Let_def)
qed

theorem confirm_default_text_role_witness:
  \<open>IsConfirm demo_confirm \<and>
   (ToLower demo_env ''Y'' = ''y'') = (ToLower demo_env (Default demo_confirm) = ''y'') \<and>
   cur (before_ReadLine demo_env (fst (snd (prepareTemplates demo_env demo_confirm)))
          (snd (snd (prepareTemplates demo_env demo_confirm)))) = NewCursor demo_env [] () False \<and>
   Run demo_env demo_types_n (demo_confirm\<lparr>Default := ''Y''\<rparr>) =
     (case Run demo_env demo_types_n demo_confirm of
        (out, p', tr') \<Rightarrow> (out, p'\<lparr>Default := ''Y''\<rparr>, tr')) \<and>
   Confirm (the (Templates (fst (snd (prepareTemplates demo_env demo_confirm))))) =
     ''{{ "?" | bold }} {{ . | bold }}? {{ "[Y/n]" | faint }} ''\<close>
proof -
  let ?P = "fst (snd (prepareTemplates demo_env demo_confirm))"
  let ?TR = "snd (snd (prepareTemplates demo_env demo_confirm))"
  have a1: "IsConfirm demo_confirm" by (simp add: demo_confirm_def)
  have a2: "prepareTemplates demo_env demo_confirm = (None, ?P, ?TR)"
    using demo_confirm_prepared prepareTemplates_triple[of demo_env demo_confirm] by simp
  obtain T where T: "Templates ?P = Some T" by (rule prepareTemplates_ok[OF a2])
  have l: "(ToLower demo_env ''Y'' = ''y'') = (ToLower demo_env (Default demo_confirm) = ''y'')"
    "ToLower demo_env (Default demo_confirm) = ''y''"
    by code_simp+
  have n: "Templates demo_confirm = None" "Pointer demo_confirm = ()"
    "IconInitial demo_env = ''?''"
    by (simp_all add: demo_confirm_def demo_env_def)
  from confirm_default_text_role[OF a1 a2, of "''Y''" demo_types_n] l T n a1
  show ?thesis by simp
qed

end
